theory Spec2Isabelle
  imports Main "HOL-Library.Word" "HOL-Library.Multiset"
begin

section \<open>The oshi.at client: data model\<close>

text \<open>
  Go strings are byte sequences; \<open>string\<close> (a list of 8-bit \<open>char\<close>s) models them
  byte for byte.
\<close>

subsection \<open>Errors and panics\<close>

text \<open>
  The error values the package can return:
  \<^item> \<open>LibError msg\<close>: an error produced by the standard library or the transport
    (\<open>url.Parse\<close>, \<open>url.JoinPath\<close>, \<open>http.NewRequestWithContext\<close>,
    \<open>httpClient.Do\<close>, \<open>io.ReadAll\<close>);
  \<^item> \<open>Wrapped e\<close>: \<open>fmt.Errorf("%w", e)\<close>;
  \<^item> \<open>ServiceError code msg\<close>: \<open>&Error{StatusCode: code, Message: msg}\<close>;
  \<^item> \<open>WrongResponse body\<close>: \<open>fmt.Errorf("%w: %s", ErrWrongResponse, body)\<close>.
\<close>

datatype error =
    LibError string
  | Wrapped error
  | ServiceError int string
  | WrongResponse string

text \<open>A run-time panic of the Go program (here only: slice index out of range).\<close>

datatype panic = IndexOutOfRange

text \<open>Go's \<open>xs[i]\<close> on a slice: it panics when \<open>i\<close> is out of range.\<close>

definition index :: "'a list \<Rightarrow> nat \<Rightarrow> panic + 'a" where
  "index xs i = (if i < length xs then Inr (xs ! i) else Inl IndexOutOfRange)"

subsection \<open>Decimal formatting\<close>

text \<open>\<open>strconv.FormatUint(n, 10)\<close>: the base-10 digits of \<open>n\<close>, most significant first.\<close>

definition digit :: "nat \<Rightarrow> char" where
  "digit d = char_of (of_char (CHR ''0'') + d)"

function formatUint :: "nat \<Rightarrow> string" where
  "formatUint n = (if n < 10 then [digit n] else formatUint (n div 10) @ [digit (n mod 10)])"
  by pat_completeness auto
termination
  by (relation "measure id") auto

declare formatUint.simps [simp del]

text \<open>The verb \<open>%d\<close> of \<open>fmt.Sprintf\<close> on an \<open>int\<close>.\<close>

definition formatInt :: "int \<Rightarrow> string" where
  "formatInt i = (if i < 0 then CHR ''-'' # formatUint (nat (- i)) else formatUint (nat i))"

text \<open>
  The \<open>Error()\<close> method: \<open>(*Error).Error\<close> for a service error, the formatted text of
  \<open>fmt.Errorf\<close> otherwise (\<open>ErrWrongResponse\<close> reads \<open>wrong response\<close>).
\<close>

fun Error :: "error \<Rightarrow> string" where
  "Error (LibError msg) = msg"
| "Error (Wrapped e) = Error e"
| "Error (ServiceError code msg) = ''Status '' @ formatInt code @ '': '' @ msg"
| "Error (WrongResponse body) = ''wrong response: '' @ body"

section \<open>Regular expressions\<close>

text \<open>
  The two patterns of the package use literals, an optional literal, greedy one-or-more
  repetitions of a character class, and two capture groups that are not nested. A pattern
  is the sequence of these items. \<open>Star\<close> is the tail of a \<open>Plus\<close> after its first
  character.
\<close>

datatype item =
    Lit char
  | Opt char
  | Plus "char \<Rightarrow> bool"
  | Star "char \<Rightarrow> bool"
  | Open nat
  | Close nat

text \<open>
  The state of a match attempt: the text captured so far by each group (group 0 is the
  whole match) and the groups that are open.
\<close>

record mstate =
  caps :: "nat \<Rightarrow> string"
  opened :: "nat list"

definition init :: mstate where
  "init = \<lparr>caps = (\<lambda>_. []), opened = []\<rparr>"

definition consume :: "char \<Rightarrow> mstate \<Rightarrow> mstate" where
  "consume c st =
     st\<lparr>caps := (\<lambda>g. if g = 0 \<or> g \<in> set (opened st) then caps st g @ [c] else caps st g)\<rparr>"

text \<open>
  Matching at the start of the text, the way Go's \<open>regexp\<close> package specifies it: among
  the matches that begin at a position, the one a backtracking search finds first, every
  repetition and option preferring to take more. The result is the final state and the
  text left after the match.
\<close>

fun matchHere :: "item list \<Rightarrow> string \<Rightarrow> mstate \<Rightarrow> (mstate \<times> string) option" where
  "matchHere [] s st = Some (st, s)"
| "matchHere (Open g # r) s st =
     matchHere r s (st\<lparr>caps := (caps st)(g := []), opened := g # opened st\<rparr>)"
| "matchHere (Close g # r) s st = matchHere r s (st\<lparr>opened := removeAll g (opened st)\<rparr>)"
| "matchHere (Lit c # r) [] st = None"
| "matchHere (Lit c # r) (x # s) st = (if x = c then matchHere r s (consume x st) else None)"
| "matchHere (Opt c # r) [] st = matchHere r [] st"
| "matchHere (Opt c # r) (x # s) st =
     (if x = c then
        (case matchHere r s (consume x st) of
           Some y \<Rightarrow> Some y
         | None \<Rightarrow> matchHere r (x # s) st)
      else matchHere r (x # s) st)"
| "matchHere (Plus p # r) [] st = None"
| "matchHere (Plus p # r) (x # s) st =
     (if p x then matchHere (Star p # r) s (consume x st) else None)"
| "matchHere (Star p # r) [] st = matchHere r [] st"
| "matchHere (Star p # r) (x # s) st =
     (if p x then
        (case matchHere (Star p # r) s (consume x st) of
           Some y \<Rightarrow> Some y
         | None \<Rightarrow> matchHere r (x # s) st)
      else matchHere r (x # s) st)"

text \<open>The number of capture groups of a pattern.\<close>

definition numGroups :: "item list \<Rightarrow> nat" where
  "numGroups re = length (filter (\<lambda>i. case i of Open _ \<Rightarrow> True | _ \<Rightarrow> False) re)"

text \<open>The submatches of a successful match: the whole match, then each group.\<close>

definition submatches :: "item list \<Rightarrow> mstate \<Rightarrow> string list" where
  "submatches re st = map (caps st) [0 ..< Suc (numGroups re)]"

text \<open>
  The leftmost match: the first position of the text at which the pattern matches.
  Returns the submatches and the text after the match.
\<close>

fun findLeftmost :: "item list \<Rightarrow> string \<Rightarrow> (string list \<times> string) option" where
  "findLeftmost re [] =
     (case matchHere re [] init of
        Some (st, rest) \<Rightarrow> Some (submatches re st, rest)
      | None \<Rightarrow> None)"
| "findLeftmost re (x # xs) =
     (case matchHere re (x # xs) init of
        Some (st, rest) \<Rightarrow> Some (submatches re st, rest)
      | None \<Rightarrow> findLeftmost re xs)"

text \<open>\<open>(*Regexp).FindStringSubmatch\<close>: the submatches of the leftmost match, \<open>nil\<close> if none.\<close>

definition FindStringSubmatch :: "item list \<Rightarrow> string \<Rightarrow> string list" where
  "FindStringSubmatch re s = (case findLeftmost re s of None \<Rightarrow> [] | Some (ms, _) \<Rightarrow> ms)"

text \<open>
  \<open>(*Regexp).FindAllStringSubmatch(s, -1)\<close>: the successive non-overlapping leftmost
  matches, each search starting where the previous match ended. The guard fails only after
  an empty match. The pattern of the upload parser, the only one this function is applied
  to, cannot match the empty string (lemma \<open>findLeftmost_upload_shorter\<close> below), so Go's
  special treatment of empty matches is not modelled: the search stops there.
\<close>

function FindAllStringSubmatch :: "item list \<Rightarrow> string \<Rightarrow> string list list" where
  "FindAllStringSubmatch re s =
     (case findLeftmost re s of
        None \<Rightarrow> []
      | Some (ms, rest) \<Rightarrow>
          if length rest < length s then ms # FindAllStringSubmatch re rest else [ms])"
  by pat_completeness auto
termination
  by (relation "measure (\<lambda>(re, s). length s)") auto

declare FindAllStringSubmatch.simps [simp del]

subsection \<open>The character classes and the two patterns\<close>

text \<open>\<open>\s\<close> in Go's syntax: tab, newline, form feed, carriage return, space.\<close>

definition isSpace :: "char \<Rightarrow> bool" where
  "isSpace c \<longleftrightarrow> c = CHR 0x09 \<or> c = CHR 0x0A \<or> c = CHR 0x0C \<or> c = CHR 0x0D \<or> c = CHR '' ''"

definition notSpace :: "char \<Rightarrow> bool" where
  "notSpace c \<longleftrightarrow> \<not> isSpace c"

definition notRBracket :: "char \<Rightarrow> bool" where
  "notRBracket c \<longleftrightarrow> c \<noteq> CHR '']''"

definition isAlnum :: "char \<Rightarrow> bool" where
  "isAlnum c \<longleftrightarrow>
     (let n = (of_char c :: nat) in
      (48 \<le> n \<and> n \<le> 57) \<or> (97 \<le> n \<and> n \<le> 122) \<or> (65 \<le> n \<and> n \<le> 90))"

text \<open>\<^verbatim>\<open>(https?://[^\s]+)\s+\[([^\]]+)\]\<close>\<close>

definition uploadResponseRegex :: "item list" where
  "uploadResponseRegex =
     [Open 1, Lit CHR ''h'', Lit CHR ''t'', Lit CHR ''t'', Lit CHR ''p'', Opt CHR ''s'',
      Lit CHR '':'', Lit CHR ''/'', Lit CHR ''/'', Plus notSpace, Close 1,
      Plus isSpace,
      Lit CHR ''['', Open 2, Plus notRBracket, Close 2, Lit CHR '']'']"

text \<open>\<^verbatim>\<open>([0-9a-zA-Z]+)\s+\(([^\]]+)\)\<close>\<close>

definition hashsumResponseRegex :: "item list" where
  "hashsumResponseRegex =
     [Open 1, Plus isAlnum, Close 1,
      Plus isSpace,
      Lit CHR ''('', Open 2, Plus notRBracket, Close 2, Lit CHR '')'']"

definition hashsumMatches :: nat where
  "hashsumMatches = 3"

section \<open>The hashsum parser\<close>

record GetHashsumResponse =
  Algorithm :: string
  Hashsum :: string

definition emptyHashsum :: GetHashsumResponse where
  "emptyHashsum = \<lparr>Algorithm = [], Hashsum = []\<rparr>"

text \<open>
  \<open>parseHashsumResponse\<close> returns a pair, as the Go function does: the response and the
  error (\<open>None\<close> is \<open>nil\<close>). \<open>Inl\<close> is a panic.
\<close>

definition parseHashsumResponse :: "string \<Rightarrow> panic + (GetHashsumResponse \<times> error option)" where
  "parseHashsumResponse body =
     (let matches = FindStringSubmatch hashsumResponseRegex body in
      if length matches < hashsumMatches then Inr (emptyHashsum, Some (WrongResponse body))
      else
        (case index matches 2 of
           Inl p \<Rightarrow> Inl p
         | Inr a \<Rightarrow>
             (case index matches 1 of
                Inl p \<Rightarrow> Inl p
              | Inr h \<Rightarrow> Inr (\<lparr>Algorithm = a, Hashsum = h\<rparr>, None))))"

section \<open>The upload parser\<close>

record UploadResponse =
  Admin :: string
  Download :: string
  TorDownload :: string

definition emptyUpload :: UploadResponse where
  "emptyUpload = \<lparr>Admin = [], Download = [], TorDownload = []\<rparr>"

text \<open>
  \<open>strings.ToLower\<close>. An ASCII upper-case letter becomes its lower-case letter. Of the
  runes outside ASCII, Go's tables map exactly two to an ASCII letter: U+0130 (bytes
  \<open>C4 B0\<close>) to \<open>i\<close> and U+212A (bytes \<open>E2 84 AA\<close>) to \<open>k\<close>. Every other byte from
  \<open>0x80\<close> on stands for itself here: Go writes some rune outside ASCII in its place, and
  the program only compares the result with ASCII literals.
\<close>

definition lowerByte :: "char \<Rightarrow> char" where
  "lowerByte c =
     (let n = (of_char c :: nat) in if 65 \<le> n \<and> n \<le> 90 then char_of (n + 32) else c)"

function ToLower :: "string \<Rightarrow> string" where
  "ToLower [] = []"
| "ToLower (c # cs) =
     (if c = CHR 0xC4 \<and> take 1 cs = [CHR 0xB0] then CHR ''i'' # ToLower (drop 1 cs)
      else if c = CHR 0xE2 \<and> take 2 cs = [CHR 0x84, CHR 0xAA] then CHR ''k'' # ToLower (drop 2 cs)
      else lowerByte c # ToLower cs)"
  by pat_completeness auto
termination
  by (relation "measure length") auto

text \<open>The body of the loop of \<open>parseUploadResponse\<close>, for one match.\<close>

definition assignMatch :: "UploadResponse \<Rightarrow> string list \<Rightarrow> panic + UploadResponse" where
  "assignMatch response match =
     (case index match 1 of
        Inl p \<Rightarrow> Inl p
      | Inr url \<Rightarrow>
          (case index match 2 of
             Inl p \<Rightarrow> Inl p
           | Inr l \<Rightarrow>
               (let label = ToLower l in
                if label = ''admin'' then Inr (response\<lparr>Admin := url\<rparr>)
                else if label = ''download'' then Inr (response\<lparr>Download := url\<rparr>)
                else if label = ''tor download'' then Inr (response\<lparr>TorDownload := url\<rparr>)
                else Inr response)))"

fun rangeMatches :: "UploadResponse \<Rightarrow> string list list \<Rightarrow> panic + UploadResponse" where
  "rangeMatches response [] = Inr response"
| "rangeMatches response (match # matches) =
     (case assignMatch response match of
        Inl p \<Rightarrow> Inl p
      | Inr response' \<Rightarrow> rangeMatches response' matches)"

definition parseUploadResponse :: "string \<Rightarrow> panic + UploadResponse" where
  "parseUploadResponse body =
     rangeMatches emptyUpload (FindAllStringSubmatch uploadResponseRegex body)"

section \<open>Requests\<close>

subsection \<open>Constants\<close>

definition defaultEndpoint :: string where
  "defaultEndpoint = ''https://oshi.at''"

text \<open>
  The names of the query parameters. In the source they are the constants \<open>expire\<close>,
  \<open>autodestroy\<close>, \<open>randomizefn\<close>, \<open>filename\<close> and \<open>shorturl\<close>, which share their names
  with the fields of \<open>Image\<close>; here the constants carry the suffix \<open>Param\<close>.
\<close>

definition expireParam :: string where
  "expireParam = ''expire''"

definition autodestroyParam :: string where
  "autodestroyParam = ''autodestroy''"

definition randomizefnParam :: string where
  "randomizefnParam = ''randomizefn''"

definition filenameParam :: string where
  "filenameParam = ''filename''"

definition shorturlParam :: string where
  "shorturlParam = ''shorturl''"

definition onion :: string where
  "onion = ''onion''"

definition hashsum :: string where
  "hashsum = ''hashsum''"

definition StatusOK :: int where
  "StatusOK = 200"

definition MethodGet :: string where
  "MethodGet = ''GET''"

definition MethodPut :: string where
  "MethodPut = ''PUT''"

definition MethodDelete :: string where
  "MethodDelete = ''DELETE''"

subsection \<open>Images\<close>

text \<open>The field \<open>file\<close> of the source is a reader over the bytes given to \<open>NewImage\<close>: here the
  field holds the bytes, under the name \<open>fileBytes\<close>.\<close>

record Image =
  fileBytes :: string
  filename :: string
  expire :: "64 word"
  autodestroy :: bool
  randomizefn :: bool
  shorturl :: bool

definition NewImage :: "string \<Rightarrow> string \<Rightarrow> 64 word \<Rightarrow> bool \<Rightarrow> bool \<Rightarrow> bool \<Rightarrow> Image" where
  "NewImage f name e a r s =
     \<lparr>fileBytes = f, filename = name, expire = e, autodestroy = a, randomizefn = r, shorturl = s\<rparr>"

subsection \<open>The standard library and the transport\<close>

text \<open>\<open>url.URL\<close>, and \<open>url.Values\<close> with its method \<open>Set\<close>.\<close>

record URL =
  Scheme :: string
  Opaque :: string
  User :: "(string \<times> string option) option"
  Host :: string
  Path :: string
  RawPath :: string
  OmitHost :: bool
  ForceQuery :: bool
  RawQuery :: string
  Fragment :: string
  RawFragment :: string

type_synonym Values = "string \<rightharpoonup> string list"

definition Values_Set :: "Values \<Rightarrow> string \<Rightarrow> string \<Rightarrow> Values" where
  "Values_Set v key val = v(key \<mapsto> [val])"

text \<open>
  What a response of the transport holds for this package: the status code, and what
  \<open>io.ReadAll\<close> returns on its body.
\<close>

record Response =
  StatusCode :: int
  Body :: "error + string"

text \<open>
  The functions of the standard library that the package calls and that are not part of
  it are parameters of the model: \<open>url.JoinPath\<close>, \<open>url.Parse\<close>, \<open>url.ParseQuery\<close>
  (\<open>(*URL).Query\<close> is \<open>ParseQuery\<close> of the field \<open>RawQuery\<close>, its error dropped),
  \<open>Values.Encode\<close>, \<open>(*URL).String\<close> and \<open>http.NewRequestWithContext\<close> (method, URL and
  optional body). \<open>'ctx\<close> is the type of contexts, \<open>'req\<close> the type of requests.
\<close>

record ('ctx, 'req) stdlib =
  url_JoinPath :: "string \<Rightarrow> string list \<Rightarrow> error + string"
  url_Parse :: "string \<Rightarrow> error + URL"
  url_ParseQuery :: "string \<Rightarrow> Values"
  Values_Encode :: "Values \<Rightarrow> string"
  URL_String :: "URL \<Rightarrow> string"
  http_NewRequestWithContext :: "'ctx \<Rightarrow> string \<Rightarrow> string \<Rightarrow> string option \<Rightarrow> error + 'req"

subsection \<open>The client\<close>

text \<open>The field \<open>httpClient\<close> is used through its method \<open>Do\<close> only: here, that method.\<close>

record 'req Client =
  endpoint :: string
  httpClient :: "'req \<Rightarrow> error + Response"

text \<open>An option mutates the client under construction: here, it returns the new client.\<close>

type_synonym 'req Option = "'req Client \<Rightarrow> 'req Client"

definition WithEndpoint :: "string \<Rightarrow> 'req Option" where
  "WithEndpoint e = (\<lambda>client. client\<lparr>endpoint := e\<rparr>)"

definition NewClient :: "('req \<Rightarrow> error + Response) \<Rightarrow> 'req Option list \<Rightarrow> 'req Client" where
  "NewClient h opts = fold (\<lambda>opt client. opt client) opts \<lparr>endpoint = defaultEndpoint, httpClient = h\<rparr>"

subsection \<open>The upload URL\<close>

text \<open>The five conditional \<open>query.Set\<close> calls of \<open>prepareUploadURL\<close>, in their order.\<close>

definition uploadQuery :: "Values \<Rightarrow> Image \<Rightarrow> Values" where
  "uploadQuery query0 img =
     (let query1 = (if filename img \<noteq> filenameParam
                    then Values_Set query0 filenameParam (filename img) else query0);
          query2 = (if expire img > 0
                    then Values_Set query1 expireParam (formatUint (unat (expire img))) else query1);
          query3 = (if autodestroy img then Values_Set query2 autodestroyParam ''1'' else query2);
          query4 = (if randomizefn img then Values_Set query3 randomizefnParam ''1'' else query3);
          query5 = (if shorturl img then Values_Set query4 shorturlParam ''1'' else query4)
      in query5)"

definition prepareUploadURL ::
  "('ctx, 'req) stdlib \<Rightarrow> 'req Client \<Rightarrow> Image \<Rightarrow> string \<times> error option" where
  "prepareUploadURL lib c img =
     (case url_Parse lib (endpoint c) of
        Inl err \<Rightarrow> ([], Some (Wrapped err))
      | Inr url \<Rightarrow>
          (let query = uploadQuery (url_ParseQuery lib (RawQuery url)) img
           in (URL_String lib (url\<lparr>RawQuery := Values_Encode lib query\<rparr>), None)))"

section \<open>The four operations\<close>

text \<open>
  Each operation is a method on a pointer to the client, so it returns, next to the Go
  function's results, the client as the call leaves it. \<open>Upload\<close> and \<open>GetHashsum\<close> call a
  parser that indexes a slice, so their result is under \<open>panic + _\<close>.
\<close>

definition GetTorEndpoint ::
  "('ctx, 'req) stdlib \<Rightarrow> 'ctx \<Rightarrow> 'req Client \<Rightarrow> (string \<times> error option) \<times> 'req Client" where
  "GetTorEndpoint lib ctx c =
     (case url_JoinPath lib (endpoint c) [onion] of
        Inl err \<Rightarrow> (([], Some (Wrapped err)), c)
      | Inr u \<Rightarrow>
     (case http_NewRequestWithContext lib ctx MethodGet u None of
        Inl err \<Rightarrow> (([], Some (Wrapped err)), c)
      | Inr req \<Rightarrow>
     (case httpClient c req of
        Inl err \<Rightarrow> (([], Some (Wrapped err)), c)
      | Inr resp \<Rightarrow>
     (case Body resp of
        Inl err \<Rightarrow> (([], Some (Wrapped err)), c)
      | Inr body \<Rightarrow>
          if StatusCode resp \<noteq> StatusOK
          then (([], Some (ServiceError (StatusCode resp) body)), c)
          else ((body, None), c)))))"

definition GetHashsum ::
  "('ctx, 'req) stdlib \<Rightarrow> 'ctx \<Rightarrow> 'req Client \<Rightarrow> string \<Rightarrow>
     panic + ((GetHashsumResponse \<times> error option) \<times> 'req Client)" where
  "GetHashsum lib ctx c f =
     (case url_JoinPath lib (endpoint c) [hashsum, f] of
        Inl err \<Rightarrow> Inr ((emptyHashsum, Some (Wrapped err)), c)
      | Inr u \<Rightarrow>
     (case http_NewRequestWithContext lib ctx MethodGet u None of
        Inl err \<Rightarrow> Inr ((emptyHashsum, Some (Wrapped err)), c)
      | Inr req \<Rightarrow>
     (case httpClient c req of
        Inl err \<Rightarrow> Inr ((emptyHashsum, Some (Wrapped err)), c)
      | Inr resp \<Rightarrow>
     (case Body resp of
        Inl err \<Rightarrow> Inr ((emptyHashsum, Some (Wrapped err)), c)
      | Inr body \<Rightarrow>
          if StatusCode resp \<noteq> StatusOK
          then Inr ((emptyHashsum, Some (ServiceError (StatusCode resp) body)), c)
          else (case parseHashsumResponse body of
                  Inl p \<Rightarrow> Inl p
                | Inr r \<Rightarrow> Inr (r, c))))))"

text \<open>\<open>Delete\<close> reads the body only when the status is not 200.\<close>

definition Delete ::
  "('ctx, 'req) stdlib \<Rightarrow> 'ctx \<Rightarrow> 'req Client \<Rightarrow> string \<Rightarrow> error option \<times> 'req Client" where
  "Delete lib ctx c adminURL =
     (case http_NewRequestWithContext lib ctx MethodDelete adminURL None of
        Inl err \<Rightarrow> (Some (Wrapped err), c)
      | Inr req \<Rightarrow>
     (case httpClient c req of
        Inl err \<Rightarrow> (Some (Wrapped err), c)
      | Inr resp \<Rightarrow>
          if StatusCode resp \<noteq> StatusOK
          then (case Body resp of
                  Inl err \<Rightarrow> (Some (Wrapped err), c)
                | Inr body \<Rightarrow> (Some (ServiceError (StatusCode resp) body), c))
          else (None, c)))"

definition Upload ::
  "('ctx, 'req) stdlib \<Rightarrow> 'ctx \<Rightarrow> 'req Client \<Rightarrow> Image \<Rightarrow>
     panic + ((UploadResponse \<times> error option) \<times> 'req Client)" where
  "Upload lib ctx c img =
     (case prepareUploadURL lib c img of
        (_, Some err) \<Rightarrow> Inr ((emptyUpload, Some (Wrapped err)), c)
      | (url, None) \<Rightarrow>
     (case http_NewRequestWithContext lib ctx MethodPut url (Some (fileBytes img)) of
        Inl err \<Rightarrow> Inr ((emptyUpload, Some (Wrapped err)), c)
      | Inr req \<Rightarrow>
     (case httpClient c req of
        Inl err \<Rightarrow> Inr ((emptyUpload, Some (Wrapped err)), c)
      | Inr resp \<Rightarrow>
     (case Body resp of
        Inl err \<Rightarrow> Inr ((emptyUpload, Some (Wrapped err)), c)
      | Inr body \<Rightarrow>
          if StatusCode resp \<noteq> StatusOK
          then Inr ((emptyUpload, Some (ServiceError (StatusCode resp) body)), c)
          else (case parseUploadResponse body of
                  Inl p \<Rightarrow> Inl p
                | Inr r \<Rightarrow> Inr ((r, None), c))))))"

section \<open>Notions used in the statements and proofs\<close>

subsection \<open>Texts\<close>

text \<open>A text of white space only, in the sense of the class \<open>\s\<close>.\<close>

definition isBlank :: "string \<Rightarrow> bool" where
  "isBlank w \<longleftrightarrow> list_all isSpace w"

text \<open>
  A URL token as the upload pattern takes it: no white space, and \<open>http://\<close> or
  \<open>https://\<close> followed by at least one more character.
\<close>

definition isURLToken :: "string \<Rightarrow> bool" where
  "isURLToken u \<longleftrightarrow>
     list_all notSpace u \<and>
     (take 7 u = ''http://'' \<and> 7 < length u \<or> take 8 u = ''https://'' \<and> 8 < length u)"

text \<open>A text that can stand between the brackets: not empty, and without \<open>]\<close>.\<close>

definition isLabelText :: "string \<Rightarrow> bool" where
  "isLabelText l \<longleftrightarrow> l \<noteq> [] \<and> list_all notRBracket l"

text \<open>The line \<open>u [l]\<close>, with the text \<open>sp\<close> between the URL and the bracket.\<close>

definition uploadLine :: "string \<Rightarrow> string \<Rightarrow> string \<Rightarrow> string" where
  "uploadLine u sp l = u @ sp @ ''['' @ l @ '']''"

text \<open>
  A line of a response together with the white space before it: \<open>(w, u, sp, l)\<close> stands
  for \<open>w\<close> followed by \<open>uploadLine u sp l\<close>. A line is well formed when the pattern
  matches exactly it; \<open>matchOf\<close> is then the match: the whole line, the URL, the label.
\<close>

type_synonym line = "string \<times> string \<times> string \<times> string"

definition wellFormed :: "line \<Rightarrow> bool" where
  "wellFormed ln =
     (case ln of (w, u, sp, l) \<Rightarrow>
        isBlank w \<and> isURLToken u \<and> sp \<noteq> [] \<and> isBlank sp \<and> isLabelText l)"

fun renderLines :: "line list \<Rightarrow> string" where
  "renderLines [] = []"
| "renderLines ((w, u, sp, l) # ls) = w @ uploadLine u sp l @ renderLines ls"

definition matchOf :: "line \<Rightarrow> string list" where
  "matchOf ln = (case ln of (w, u, sp, l) \<Rightarrow> [uploadLine u sp l, u, l])"

text \<open>The URL of the last line whose lower-cased label is \<open>lab\<close>; empty if there is none.\<close>

definition lastLabelled :: "string \<Rightarrow> line list \<Rightarrow> string" where
  "lastLabelled lab ls =
     (case rev (filter (\<lambda>(w, u, sp, l). ToLower l = lab) ls) of
        [] \<Rightarrow> []
      | (w, u, sp, l) # _ \<Rightarrow> u)"

text \<open>
  The same on a list of matches: the URL of the last match whose lower-cased label is
  \<open>lab\<close>.
\<close>

definition lastMatch :: "string \<Rightarrow> string list list \<Rightarrow> string" where
  "lastMatch lab ms =
     (case rev (filter (\<lambda>m. ToLower (m ! 2) = lab) ms) of
        [] \<Rightarrow> []
      | m # _ \<Rightarrow> m ! 1)"

subsection \<open>Letter case\<close>

text \<open>
  \<open>casingOf l w\<close>: the text \<open>l\<close> is \<open>w\<close> with any of its lower-case ASCII letters
  replaced by the upper-case letter.
\<close>

definition upperByte :: "char \<Rightarrow> char" where
  "upperByte c =
     (let n = (of_char c :: nat) in if 97 \<le> n \<and> n \<le> 122 then char_of (n - 32) else c)"

definition casingOf :: "string \<Rightarrow> string \<Rightarrow> bool" where
  "casingOf l w \<longleftrightarrow> list_all2 (\<lambda>a b. a = b \<or> a = upperByte b) l w"

definition isLowerASCII :: "char \<Rightarrow> bool" where
  "isLowerASCII c \<longleftrightarrow>
     (of_char c :: nat) < 128 \<and> \<not> (65 \<le> (of_char c :: nat) \<and> (of_char c :: nat) \<le> 90)"

subsection \<open>Matching\<close>

text \<open>The state after a run of characters has been consumed.\<close>

definition consumeAll :: "string \<Rightarrow> mstate \<Rightarrow> mstate" where
  "consumeAll t st = fold consume t st"

subsection \<open>Query parameters\<close>

text \<open>The names of the query parameters of the five directives.\<close>

definition directiveParams :: "string set" where
  "directiveParams = {''filename'', ''expire'', ''autodestroy'', ''randomizefn'', ''shorturl''}"

text \<open>The number that a string of decimal digits denotes.\<close>

definition decimalValue :: "string \<Rightarrow> nat" where
  "decimalValue s = foldl (\<lambda>a d. 10 * a + (of_char d - 48)) 0 s"

subsection \<open>A concrete library and transport\<close>

text \<open>
  A small instance of the library parameters, and a transport that answers every request
  with a given status and body; the concrete instances of the theorems about the
  operations are stated on them. A request is its method, URL and optional body.
  \<open>url.Parse\<close> keeps the whole endpoint in the field \<open>Opaque\<close> and finds no query in it;
  \<open>Encode\<close> writes the five parameters in the order of their names.
\<close>

fun joinWith :: "string \<Rightarrow> string list \<Rightarrow> string" where
  "joinWith sep [] = []"
| "joinWith sep [x] = x"
| "joinWith sep (x # y # r) = x @ sep @ joinWith sep (y # r)"

definition stubLib :: "(unit, string \<times> string \<times> string option) stdlib" where
  "stubLib =
     \<lparr>url_JoinPath = (\<lambda>b ps. Inr (b @ concat (map (\<lambda>p. CHR ''/'' # p) ps))),
      url_Parse =
        (\<lambda>s. Inr \<lparr>Scheme = [], Opaque = s, User = None, Host = [], Path = [], RawPath = [],
                   OmitHost = False, ForceQuery = False, RawQuery = [], Fragment = [],
                   RawFragment = []\<rparr>),
      url_ParseQuery = (\<lambda>s. Map.empty),
      Values_Encode =
        (\<lambda>v. joinWith ''&''
           (concat (map (\<lambda>k. case v k of None \<Rightarrow> [] | Some vs \<Rightarrow> map (\<lambda>x. k @ ''='' @ x) vs)
              [''autodestroy'', ''expire'', ''filename'', ''randomizefn'', ''shorturl'']))),
      URL_String = (\<lambda>u. Opaque u @ (if RawQuery u = [] then [] else CHR ''?'' # RawQuery u)),
      http_NewRequestWithContext = (\<lambda>ctx m u b. Inr (m, u, b))\<rparr>"

definition stubTransport ::
  "int \<Rightarrow> string \<Rightarrow> string \<times> string \<times> string option \<Rightarrow> error + Response" where
  "stubTransport code body req = Inr \<lparr>StatusCode = code, Body = Inr body\<rparr>"

text \<open>The image of the package's tests.\<close>

definition testImage :: Image where
  "testImage = NewImage ''data'' ''name_test'' 5 True False False"

text \<open>
  A second instance, for endpoints that carry a query string of their own: \<open>url.Parse\<close>
  splits the endpoint at the first \<open>?\<close>, and \<open>url.ParseQuery\<close> reads the pairs
  \<open>key=value\<close> between the \<open>&\<close>, collecting the values of a key in their order.
\<close>

fun splitOn :: "char \<Rightarrow> string \<Rightarrow> string list" where
  "splitOn c [] = [[]]"
| "splitOn c (x # xs) =
     (if x = c then [] # splitOn c xs
      else (case splitOn c xs of [] \<Rightarrow> [[x]] | y # ys \<Rightarrow> (x # y) # ys))"

definition addPair :: "string \<Rightarrow> Values \<Rightarrow> Values" where
  "addPair kv m =
     (let k = takeWhile (\<lambda>c. c \<noteq> CHR ''='') kv;
          v = drop 1 (dropWhile (\<lambda>c. c \<noteq> CHR ''='') kv)
      in m(k \<mapsto> (case m k of None \<Rightarrow> [v] | Some vs \<Rightarrow> vs @ [v])))"

definition queryLib :: "(unit, string \<times> string \<times> string option) stdlib" where
  "queryLib =
     stubLib
       \<lparr>url_Parse :=
          (\<lambda>s. Inr \<lparr>Scheme = [], Opaque = takeWhile (\<lambda>c. c \<noteq> CHR ''?'') s, User = None,
                     Host = [], Path = [], RawPath = [], OmitHost = False, ForceQuery = False,
                     RawQuery = drop 1 (dropWhile (\<lambda>c. c \<noteq> CHR ''?'') s), Fragment = [],
                     RawFragment = []\<rparr>),
        url_ParseQuery :=
          (\<lambda>s. fold addPair (filter (\<lambda>kv. kv \<noteq> []) (splitOn CHR ''&'' s)) Map.empty)\<rparr>"

text \<open>An image with every directive at its default.\<close>

definition plainImage :: Image where
  "plainImage = NewImage ''data'' ''filename'' 0 False False False"

section \<open>Properties of the matcher\<close>

lemma consumeAll_Nil [simp]: "consumeAll [] st = st"
  by (simp add: consumeAll_def)

lemma consumeAll_Cons [simp]: "consumeAll (c # t) st = consumeAll t (consume c st)"
  by (simp add: consumeAll_def)

lemma opened_consume [simp]: "opened (consume c st) = opened st"
  by (simp add: consume_def)

lemma opened_consumeAll [simp]: "opened (consumeAll t st) = opened st"
  by (induction t arbitrary: st) simp_all

lemma caps_consumeAll:
  "caps (consumeAll t st) g = (if g = 0 \<or> g \<in> set (opened st) then caps st g @ t else caps st g)"
  by (induction t arbitrary: st) (simp_all add: consume_def)

lemma matchHere_Star_greedy:
  "list_all p t \<Longrightarrow> s = [] \<or> \<not> p (hd s) \<Longrightarrow> matchHere r s (consumeAll t st) = Some y
   \<Longrightarrow> matchHere (Star p # r) (t @ s) st = Some y"
proof (induction t arbitrary: st)
  case Nil
  then show ?case by (cases s) auto
next
  case (Cons c t)
  then show ?case by simp
qed

lemma matchHere_Plus_greedy:
  "t \<noteq> [] \<Longrightarrow> list_all p t \<Longrightarrow> s = [] \<or> \<not> p (hd s) \<Longrightarrow> matchHere r s (consumeAll t st) = Some y
   \<Longrightarrow> matchHere (Plus p # r) (t @ s) st = Some y"
  by (cases t) (auto simp: matchHere_Star_greedy)

lemma upload_tail:
  assumes t: "t \<noteq> []" "list_all notSpace t"
    and sp: "sp \<noteq> []" "list_all isSpace sp"
    and l: "l \<noteq> []" "list_all notRBracket l"
    and o: "opened st = [1]"
  shows "\<exists>st'. matchHere [Plus notSpace, Close 1, Plus isSpace, Lit CHR ''['', Open 2, Plus notRBracket, Close 2, Lit CHR '']'']
           (t @ sp @ CHR ''['' # l @ CHR '']'' # rest) st = Some (st', rest)
         \<and> caps st' 0 = caps st 0 @ t @ sp @ CHR ''['' # l @ [CHR '']'']
         \<and> caps st' 1 = caps st 1 @ t \<and> caps st' 2 = l"
proof -
  define st1 where "st1 = consumeAll t st"
  define st2 where "st2 = consumeAll sp (st1\<lparr>opened := removeAll 1 (opened st1)\<rparr>)"
  define st3 where "st3 = consume CHR ''['' st2"
  define st4 where "st4 = consumeAll l (st3\<lparr>caps := (caps st3)(2 := []), opened := 2 # opened st3\<rparr>)"
  define st5 where "st5 = consume CHR '']'' (st4\<lparr>opened := removeAll 2 (opened st4)\<rparr>)"
  have a: "matchHere [Plus notRBracket, Close 2, Lit CHR '']''] (l @ CHR '']'' # rest)
             (st3\<lparr>caps := (caps st3)(2 := []), opened := 2 # opened st3\<rparr>) = Some (st5, rest)"
    by (rule matchHere_Plus_greedy) (use l in \<open>simp_all add: notRBracket_def st4_def st5_def\<close>)
  have b: "matchHere [Plus isSpace, Lit CHR ''['', Open 2, Plus notRBracket, Close 2, Lit CHR '']'']
             (sp @ CHR ''['' # l @ CHR '']'' # rest) (st1\<lparr>opened := removeAll 1 (opened st1)\<rparr>) = Some (st5, rest)"
    by (rule matchHere_Plus_greedy) (use sp a in \<open>simp_all add: isSpace_def st2_def st3_def\<close>)
  have hd: "isSpace (hd sp)"
    using sp by (cases sp) simp_all
  have c: "matchHere [Plus notSpace, Close 1, Plus isSpace, Lit CHR ''['', Open 2, Plus notRBracket, Close 2, Lit CHR '']'']
             (t @ sp @ CHR ''['' # l @ CHR '']'' # rest) st = Some (st5, rest)"
    by (rule matchHere_Plus_greedy) (use t sp hd b in \<open>simp_all add: notSpace_def st1_def\<close>)
  have "caps st5 0 = caps st 0 @ t @ sp @ CHR ''['' # l @ [CHR '']'']"
    by (simp add: st5_def st4_def st3_def st2_def st1_def caps_consumeAll consume_def o)
  moreover have "caps st5 1 = caps st 1 @ t"
    by (simp add: st5_def st4_def st3_def st2_def st1_def caps_consumeAll consume_def o)
  moreover have "caps st5 2 = l"
    by (simp add: st5_def st4_def st3_def st2_def st1_def caps_consumeAll consume_def o)
  ultimately show ?thesis using c by blast
qed

lemma numGroups_upload [simp]: "numGroups uploadResponseRegex = 2"
  by (simp add: numGroups_def uploadResponseRegex_def)

lemma submatches_upload: "submatches uploadResponseRegex st = [caps st 0, caps st 1, caps st 2]"
  by (simp add: submatches_def upt_rec numeral_2_eq_2)

lemma matchHere_upload_line:
  assumes u: "isURLToken u" and sp: "sp \<noteq> []" "isBlank sp" and l: "isLabelText l"
  shows "\<exists>st. matchHere uploadResponseRegex (u @ sp @ CHR ''['' # l @ CHR '']'' # rest) init = Some (st, rest)
           \<and> submatches uploadResponseRegex st = [u @ sp @ CHR ''['' # l @ [CHR '']''], u, l]"
proof -
  from u consider t where "u = ''http://'' @ t" "t \<noteq> []" "list_all notSpace t"
    | t where "u = ''https://'' @ t" "t \<noteq> []" "list_all notSpace t"
  proof -
    assume a: "\<And>t. u = ''http://'' @ t \<Longrightarrow> t \<noteq> [] \<Longrightarrow> list_all notSpace t \<Longrightarrow> thesis"
      and b: "\<And>t. u = ''https://'' @ t \<Longrightarrow> t \<noteq> [] \<Longrightarrow> list_all notSpace t \<Longrightarrow> thesis"
    from u have ns: "list_all notSpace u" by (simp add: isURLToken_def)
    from u have "take 7 u = ''http://'' \<and> 7 < length u \<or> take 8 u = ''https://'' \<and> 8 < length u"
      by (simp add: isURLToken_def)
    then show thesis
    proof
      assume h: "take 7 u = ''http://'' \<and> 7 < length u"
      have "u = take 7 u @ drop 7 u" by simp
      with h have e: "u = ''http://'' @ drop 7 u" by simp
      have "list_all notSpace (drop 7 u)" using ns by (metis append_take_drop_id list_all_append)
      with h e show thesis by (intro a[of "drop 7 u"]) auto
    next
      assume h: "take 8 u = ''https://'' \<and> 8 < length u"
      have "u = take 8 u @ drop 8 u" by simp
      with h have e: "u = ''https://'' @ drop 8 u" by simp
      have "list_all notSpace (drop 8 u)" using ns by (metis append_take_drop_id list_all_append)
      with h e show thesis by (intro b[of "drop 8 u"]) auto
    qed
  qed
  then show ?thesis
  proof cases
    case 1
    define st where "st = consumeAll ''http://'' (init\<lparr>caps := (caps init)(1 := []), opened := 1 # opened init\<rparr>)"
    have o: "opened st = [1]" by (simp add: st_def init_def)
    from upload_tail[OF 1(2,3) sp(1) sp(2)[unfolded isBlank_def] l[unfolded isLabelText_def, THEN conjunct1] l[unfolded isLabelText_def, THEN conjunct2] o, of rest]
    obtain st' where m: "matchHere [Plus notSpace, Close 1, Plus isSpace, Lit CHR ''['', Open 2, Plus notRBracket, Close 2, Lit CHR '']'']
           (t @ sp @ CHR ''['' # l @ CHR '']'' # rest) st = Some (st', rest)"
      and c: "caps st' 0 = caps st 0 @ t @ sp @ CHR ''['' # l @ [CHR '']'']" "caps st' 1 = caps st 1 @ t" "caps st' 2 = l"
      by blast
    have "matchHere uploadResponseRegex (u @ sp @ CHR ''['' # l @ CHR '']'' # rest) init = Some (st', rest)"
      using m by (simp add: uploadResponseRegex_def 1 st_def)
    moreover have "submatches uploadResponseRegex st' = [u @ sp @ CHR ''['' # l @ [CHR '']''], u, l]"
      using c by (simp add: submatches_upload 1 st_def consume_def init_def)
    ultimately show ?thesis by blast
  next
    case 2
    define st where "st = consumeAll ''https://'' (init\<lparr>caps := (caps init)(1 := []), opened := 1 # opened init\<rparr>)"
    have o: "opened st = [1]" by (simp add: st_def init_def)
    from upload_tail[OF 2(2,3) sp(1) sp(2)[unfolded isBlank_def] l[unfolded isLabelText_def, THEN conjunct1] l[unfolded isLabelText_def, THEN conjunct2] o, of rest]
    obtain st' where m: "matchHere [Plus notSpace, Close 1, Plus isSpace, Lit CHR ''['', Open 2, Plus notRBracket, Close 2, Lit CHR '']'']
           (t @ sp @ CHR ''['' # l @ CHR '']'' # rest) st = Some (st', rest)"
      and c: "caps st' 0 = caps st 0 @ t @ sp @ CHR ''['' # l @ [CHR '']'']" "caps st' 1 = caps st 1 @ t" "caps st' 2 = l"
      by blast
    have "matchHere uploadResponseRegex (u @ sp @ CHR ''['' # l @ CHR '']'' # rest) init = Some (st', rest)"
      using m by (simp add: uploadResponseRegex_def 2 st_def)
    moreover have "submatches uploadResponseRegex st' = [u @ sp @ CHR ''['' # l @ [CHR '']''], u, l]"
      using c by (simp add: submatches_upload 2 st_def consume_def init_def)
    ultimately show ?thesis by blast
  qed
qed

lemma matchHere_length:
  "matchHere re s st = Some (st', rest) \<Longrightarrow> length rest \<le> length s"
proof (induction re s st arbitrary: st' rest rule: matchHere.induct)
  case (7 c r x s st)
  then show ?case by (fastforce split: if_splits option.splits)
next
  case (11 p r x s st)
  then show ?case by (fastforce split: if_splits option.splits)
qed (fastforce split: if_splits)+

lemma matchHere_upload_shorter:
  "matchHere uploadResponseRegex s init = Some (st, rest) \<Longrightarrow> length rest < length s"
  by (cases s) (auto simp: uploadResponseRegex_def split: if_splits dest!: matchHere_length)

lemma findLeftmost_upload_shorter:
  "findLeftmost uploadResponseRegex s = Some (ms, rest) \<Longrightarrow> length rest < length s"
proof (induction s)
  case Nil
  then show ?case by (auto split: option.splits dest: matchHere_upload_shorter)
next
  case (Cons x xs)
  then show ?case by (fastforce split: option.splits dest: matchHere_upload_shorter)
qed

lemma findLeftmost_length:
  "findLeftmost re s = Some (ms, rest) \<Longrightarrow> length ms = Suc (numGroups re)"
  by (induction s) (auto simp: submatches_def split: option.splits)

lemma FindAll_length:
  "m \<in> set (FindAllStringSubmatch re s) \<Longrightarrow> length m = Suc (numGroups re)"
proof (induction re s rule: FindAllStringSubmatch.induct)
  case (1 re s)
  show ?case
  proof (cases "findLeftmost re s")
    case None
    with "1.prems" show ?thesis by (subst (asm) FindAllStringSubmatch.simps) simp
  next
    case (Some a)
    obtain ms rest where a: "a = (ms, rest)" by (cases a)
    show ?thesis
    proof (cases "length rest < length s")
      case True
      with "1.prems" Some a have "m = ms \<or> m \<in> set (FindAllStringSubmatch re rest)"
        by (subst (asm) FindAllStringSubmatch.simps) auto
      then show ?thesis
        using "1.IH"[OF Some[unfolded a] refl True] findLeftmost_length Some a by auto
    next
      case False
      with "1.prems" Some a have "m = ms"
        by (subst (asm) FindAllStringSubmatch.simps) auto
      then show ?thesis using findLeftmost_length Some a by auto
    qed
  qed
qed

lemma matchHere_needs_Lit:
  "Lit c \<in> set re \<Longrightarrow> matchHere re s st = Some y \<Longrightarrow> c \<in> set s"
  by (induction re s st rule: matchHere.induct) (auto split: if_splits option.splits)

lemma findLeftmost_needs_Lit:
  "Lit c \<in> set re \<Longrightarrow> findLeftmost re s = Some y \<Longrightarrow> c \<in> set s"
  by (induction s) (auto split: option.splits dest: matchHere_needs_Lit)

lemma matchHere_upload_Nil [simp]: "matchHere uploadResponseRegex [] st = None"
  by (simp add: uploadResponseRegex_def)

lemma matchHere_upload_not_h:
  "x \<noteq> CHR ''h'' \<Longrightarrow> matchHere uploadResponseRegex (x # xs) st = None"
  by (simp add: uploadResponseRegex_def)

lemma findLeftmost_upload_skip:
  "isBlank w \<Longrightarrow> findLeftmost uploadResponseRegex (w @ s) = findLeftmost uploadResponseRegex s"
proof (induction w)
  case Nil
  then show ?case by simp
next
  case (Cons x w)
  then have "x \<noteq> CHR ''h''" by (auto simp: isBlank_def isSpace_def)
  with Cons show ?case by (simp add: matchHere_upload_not_h isBlank_def)
qed

lemma findLeftmost_upload_blank:
  "isBlank w \<Longrightarrow> findLeftmost uploadResponseRegex w = None"
  using findLeftmost_upload_skip[of w "[]"] by simp

lemma findLeftmost_upload_line:
  assumes "isURLToken u" "sp \<noteq> []" "isBlank sp" "isLabelText l"
  shows "findLeftmost uploadResponseRegex (uploadLine u sp l @ rest) = Some ([uploadLine u sp l, u, l], rest)"
proof -
  from matchHere_upload_line[OF assms, of rest] obtain st where
    m: "matchHere uploadResponseRegex (u @ sp @ CHR ''['' # l @ CHR '']'' # rest) init = Some (st, rest)"
    and s: "submatches uploadResponseRegex st = [u @ sp @ CHR ''['' # l @ [CHR '']''], u, l]"
    by blast
  from assms(1) obtain x xs where u: "u = x # xs" by (cases u) (auto simp: isURLToken_def)
  show ?thesis
    using m s by (simp add: uploadLine_def u)
qed

lemma FindAll_lines:
  "list_all wellFormed ls \<Longrightarrow> isBlank wEnd \<Longrightarrow>
   FindAllStringSubmatch uploadResponseRegex (renderLines ls @ wEnd) = map matchOf ls"
proof (induction ls)
  case Nil
  then show ?case by (subst FindAllStringSubmatch.simps) (simp add: findLeftmost_upload_blank)
next
  case (Cons ln ls)
  obtain w u sp l where ln: "ln = (w, u, sp, l)" by (cases ln)
  from Cons.prems ln have wf: "isBlank w" "isURLToken u" "sp \<noteq> []" "isBlank sp" "isLabelText l"
    by (simp_all add: wellFormed_def)
  have f: "findLeftmost uploadResponseRegex (renderLines (ln # ls) @ wEnd)
        = Some ([uploadLine u sp l, u, l], renderLines ls @ wEnd)"
    using findLeftmost_upload_line[OF wf(2-5)] wf(1) by (simp add: ln findLeftmost_upload_skip)
  have "length (renderLines ls @ wEnd) < length (renderLines (ln # ls) @ wEnd)"
    using wf(3) by (simp add: ln uploadLine_def)
  then show ?case
    using Cons f by (subst FindAllStringSubmatch.simps) (simp add: matchOf_def ln)
qed

lemma ToLower_step:
  assumes "isLowerASCII b" "a = b \<or> a = upperByte b"
  shows "ToLower (a # as) = b # ToLower as"
proof -
  have lt: "(of_char a :: nat) < 128"
    using assms by (auto simp: isLowerASCII_def upperByte_def Let_def)
  then have ne: "a \<noteq> CHR 0xC4" "a \<noteq> CHR 0xE2" by auto
  have "lowerByte a = b"
    using assms by (auto simp: isLowerASCII_def upperByte_def lowerByte_def Let_def)
  with ne show ?thesis by simp
qed

lemma ToLower_casingOf:
  "casingOf l w \<Longrightarrow> list_all isLowerASCII w \<Longrightarrow> ToLower l = w"
  unfolding casingOf_def
proof (induction l w rule: list_all2_induct)
  case Nil
  then show ?case by simp
next
  case (Cons a l b w)
  then have "ToLower (a # l) = b # ToLower l"
    by (intro ToLower_step) simp_all
  with Cons show ?case by simp
qed

lemma ToLower_admin: "casingOf l ''admin'' \<Longrightarrow> ToLower l = ''admin''"
  by (rule ToLower_casingOf) (simp_all add: isLowerASCII_def)

lemma ToLower_download: "casingOf l ''download'' \<Longrightarrow> ToLower l = ''download''"
  by (rule ToLower_casingOf) (simp_all add: isLowerASCII_def)

lemma ToLower_tor_download: "casingOf l ''tor download'' \<Longrightarrow> ToLower l = ''tor download''"
  by (rule ToLower_casingOf) (simp_all add: isLowerASCII_def)

lemma upperByte_not_rbracket:
  assumes "b \<noteq> CHR '']''"
  shows "upperByte b \<noteq> CHR '']''"
proof
  assume e: "upperByte b = CHR '']''"
  show False
  proof (cases "97 \<le> (of_char b :: nat) \<and> (of_char b :: nat) \<le> 122")
    case True
    with e have "char_of ((of_char b :: nat) - 32) = CHR '']''"
      by (simp add: upperByte_def)
    then have "(of_char (char_of ((of_char b :: nat) - 32)) :: nat) = of_char CHR '']''"
      by simp
    with True show False by (simp add: mod_if split: if_splits)
  next
    case False
    with e assms show False by (simp add: upperByte_def)
  qed
qed

lemma casingOf_isLabelText:
  "casingOf l w \<Longrightarrow> w \<noteq> [] \<Longrightarrow> list_all isLowerASCII w \<Longrightarrow> CHR '']'' \<notin> set w \<Longrightarrow> isLabelText l"
  unfolding casingOf_def isLabelText_def
proof (induction l w rule: list_all2_induct)
  case Nil
  then show ?case by simp
next
  case (Cons a l b w)
  have "a \<noteq> CHR '']''"
    using Cons upperByte_not_rbracket[of b] by auto
  moreover have "list_all notRBracket l"
    using Cons by (cases w) (auto simp: list_all2_Nil2)
  ultimately show ?case by (simp add: notRBracket_def[abs_def])
qed

lemma assignMatch_matchOf:
  "assignMatch r (matchOf (w, u, sp, l)) =
     Inr (if ToLower l = ''admin'' then r\<lparr>Admin := u\<rparr>
          else if ToLower l = ''download'' then r\<lparr>Download := u\<rparr>
          else if ToLower l = ''tor download'' then r\<lparr>TorDownload := u\<rparr>
          else r)"
  by (simp add: assignMatch_def matchOf_def index_def Let_def)

lemma rangeMatches_snoc:
  "rangeMatches r (ms @ [m]) =
     (case rangeMatches r ms of Inl p \<Rightarrow> Inl p | Inr r' \<Rightarrow> assignMatch r' m)"
  by (induction ms arbitrary: r) (auto split: sum.splits)

lemma lastLabelled_Nil [simp]: "lastLabelled lab [] = []"
  by (simp add: lastLabelled_def)

lemma lastLabelled_snoc:
  "lastLabelled lab (ls @ [(w, u, sp, l)]) = (if ToLower l = lab then u else lastLabelled lab ls)"
  by (auto simp: lastLabelled_def split: list.splits)

lemma rangeMatches_lines:
  "rangeMatches emptyUpload (map matchOf ls) =
     Inr \<lparr>Admin = lastLabelled ''admin'' ls, Download = lastLabelled ''download'' ls,
          TorDownload = lastLabelled ''tor download'' ls\<rparr>"
proof (induction ls rule: rev_induct)
  case Nil
  then show ?case by (simp add: emptyUpload_def)
next
  case (snoc ln ls)
  obtain w u sp l where ln: "ln = (w, u, sp, l)" by (cases ln)
  show ?case
    by (simp add: rangeMatches_snoc snoc ln assignMatch_matchOf lastLabelled_snoc)
qed

lemma parseUploadResponse_lines:
  "list_all wellFormed ls \<Longrightarrow> isBlank wEnd \<Longrightarrow>
   parseUploadResponse (renderLines ls @ wEnd) =
     Inr \<lparr>Admin = lastLabelled ''admin'' ls, Download = lastLabelled ''download'' ls,
          TorDownload = lastLabelled ''tor download'' ls\<rparr>"
  by (simp add: parseUploadResponse_def FindAll_lines rangeMatches_lines)

lemma lastLabelled_last:
  assumes "ToLower l = lab" "list_all (\<lambda>(w', u', sp', l'). ToLower l' \<noteq> ToLower l) ls2"
  shows "lastLabelled lab (ls1 @ (w, u, sp, l) # ls2) = u"
proof -
  have "filter (\<lambda>(w, u, sp, l). ToLower l = lab) ls2 = []"
    using assms by (auto simp: filter_empty_conv list_all_iff)
  then show ?thesis using assms(1) by (simp add: lastLabelled_def)
qed

lemma rangeMatches_total:
  "list_all (\<lambda>m. length m = 3) ms \<Longrightarrow> \<exists>r'. rangeMatches r ms = Inr r'"
proof (induction ms arbitrary: r)
  case Nil
  then show ?case by simp
next
  case (Cons m ms)
  then have "\<exists>r'. assignMatch r m = Inr r'"
    by (simp add: assignMatch_def index_def Let_def)
  then obtain r' where "assignMatch r m = Inr r'" ..
  with Cons show ?case by simp
qed

lemma FindAll_upload_lengths:
  "list_all (\<lambda>m. length m = 3) (FindAllStringSubmatch uploadResponseRegex body)"
  using FindAll_length[of _ uploadResponseRegex body] by (simp add: list_all_iff)

lemma FindAll_upload_no_bracket:
  assumes "CHR ''['' \<notin> set body"
  shows "FindAllStringSubmatch uploadResponseRegex body = []"
proof -
  have "Lit CHR ''['' \<in> set uploadResponseRegex"
    by (simp add: uploadResponseRegex_def)
  with assms have "findLeftmost uploadResponseRegex body = None"
    using findLeftmost_needs_Lit[of "CHR ''[''" uploadResponseRegex body] by (cases "findLeftmost uploadResponseRegex body") auto
  then show ?thesis by (subst FindAllStringSubmatch.simps) simp
qed

lemma isURLToken_a1: "isURLToken ''http://a/1''" "isURLToken ''http://a/2''" "isURLToken ''http://a/3''"
  by (simp_all add: isURLToken_def notSpace_def isSpace_def)

lemma isLabelText_labels:
  "casingOf l ''admin'' \<Longrightarrow> isLabelText l"
  "casingOf l ''download'' \<Longrightarrow> isLabelText l"
  "casingOf l ''tor download'' \<Longrightarrow> isLabelText l"
  by (erule casingOf_isLabelText; simp add: isLowerASCII_def)+

lemma perm3_cases:
  assumes "mset [x, y, z] = mset [a, b, c]"
  shows "[x, y, z] \<in> {[a, b, c], [a, c, b], [b, a, c], [b, c, a], [c, a, b], [c, b, a]}"
  using assms by (auto simp: add_eq_conv_ex)

lemma lastMatch_Nil [simp]: "lastMatch lab [] = []"
  by (simp add: lastMatch_def)

lemma lastMatch_snoc:
  "lastMatch lab (ms @ [m]) = (if ToLower (m ! 2) = lab then m ! 1 else lastMatch lab ms)"
  by (simp add: lastMatch_def)

lemma assignMatch_length3:
  "length m = 3 \<Longrightarrow>
   assignMatch r m =
     Inr (if ToLower (m ! 2) = ''admin'' then r\<lparr>Admin := m ! 1\<rparr>
          else if ToLower (m ! 2) = ''download'' then r\<lparr>Download := m ! 1\<rparr>
          else if ToLower (m ! 2) = ''tor download'' then r\<lparr>TorDownload := m ! 1\<rparr>
          else r)"
  by (simp add: assignMatch_def index_def Let_def)

lemma rangeMatches_lastMatch:
  "list_all (\<lambda>m. length m = 3) ms \<Longrightarrow>
   rangeMatches emptyUpload ms =
     Inr \<lparr>Admin = lastMatch ''admin'' ms, Download = lastMatch ''download'' ms,
          TorDownload = lastMatch ''tor download'' ms\<rparr>"
proof (induction ms rule: rev_induct)
  case Nil
  then show ?case by (simp add: emptyUpload_def)
next
  case (snoc m ms)
  then show ?case
    by (simp add: rangeMatches_snoc assignMatch_length3 lastMatch_snoc)
qed

lemma parseUploadResponse_lastMatch:
  "parseUploadResponse body =
     Inr \<lparr>Admin = lastMatch ''admin'' (FindAllStringSubmatch uploadResponseRegex body),
          Download = lastMatch ''download'' (FindAllStringSubmatch uploadResponseRegex body),
          TorDownload = lastMatch ''tor download'' (FindAllStringSubmatch uploadResponseRegex body)\<rparr>"
  unfolding parseUploadResponse_def by (rule rangeMatches_lastMatch) (rule FindAll_upload_lengths)

lemma parseUploadResponse_Inr: "\<exists>r. parseUploadResponse body = Inr r"
  unfolding parseUploadResponse_def by (rule rangeMatches_total) (rule FindAll_upload_lengths)

lemma parseUploadResponse_not_Inl: "parseUploadResponse body \<noteq> Inl p"
  using parseUploadResponse_Inr[of body] by auto

section \<open>Properties of the upload parser\<close>

text \<open>
  Claim C1. A body made of the three lines \<open>http://a/1 [Admin]\<close>, \<open>http://a/2 [Download]\<close>
  and \<open>http://a/3 [Tor download]\<close>, in any order (\<open>mset\<close>), the labels in any letter case
  (\<open>casingOf\<close>), with any white space before, between and after the lines and any
  non-empty white space between a URL and its label, parses to the result whose three fields
  are these URLs. A body with the Download line alone gives \<open>Download\<close> and leaves the two
  other fields empty; so does a body in which a line with a label that is none of the three
  precedes the Download line: that line is ignored.
\<close>

theorem upload_three_lines:
  assumes lab: "casingOf lA ''admin''" "casingOf lD ''download''" "casingOf lT ''tor download''"
    and perm: "mset [(ux, lx), (uy, ly), (uz, lz)]
             = mset [(''http://a/1'', lA), (''http://a/2'', lD), (''http://a/3'', lT)]"
    and sep: "s1 \<noteq> []" "isBlank s1" "s2 \<noteq> []" "isBlank s2" "s3 \<noteq> []" "isBlank s3"
    and ws: "isBlank w0" "isBlank w1" "isBlank w2" "isBlank w3"
    and other: "isLabelText lo" "ToLower lo \<noteq> ''admin''" "ToLower lo \<noteq> ''download''"
      "ToLower lo \<noteq> ''tor download''" "isURLToken uo"
  shows "parseUploadResponse
           (w0 @ uploadLine ux s1 lx @ w1 @ uploadLine uy s2 ly @ w2 @ uploadLine uz s3 lz @ w3)
         = Inr \<lparr>Admin = ''http://a/1'', Download = ''http://a/2'', TorDownload = ''http://a/3''\<rparr>
       \<and> parseUploadResponse (w0 @ uploadLine ''http://a/2'' s1 lD @ w1)
         = Inr \<lparr>Admin = [], Download = ''http://a/2'', TorDownload = []\<rparr>
       \<and> parseUploadResponse (w0 @ uploadLine uo s2 lo @ w1 @ uploadLine ''http://a/2'' s1 lD @ w2)
         = Inr \<lparr>Admin = [], Download = ''http://a/2'', TorDownload = []\<rparr>"
proof -
  define ls where "ls = [(w0, ux, s1, lx), (w1, uy, s2, ly), (w2, uz, s3, lz)]"
  have low: "ToLower lA = ''admin''" "ToLower lD = ''download''" "ToLower lT = ''tor download''"
    using lab by (simp_all add: ToLower_admin ToLower_download ToLower_tor_download)
  have lt: "isLabelText lA" "isLabelText lD" "isLabelText lT"
    using lab by (simp_all add: isLabelText_labels)
  note cases = perm3_cases[OF perm]
  have wf: "list_all wellFormed ls"
    using cases sep ws lt by (auto simp: ls_def wellFormed_def isURLToken_a1)
  have r: "renderLines ls @ w3
         = w0 @ uploadLine ux s1 lx @ w1 @ uploadLine uy s2 ly @ w2 @ uploadLine uz s3 lz @ w3"
    by (simp add: ls_def)
  have a: "lastLabelled ''admin'' ls = ''http://a/1''"
    using cases by (auto simp: ls_def lastLabelled_def low)
  have d: "lastLabelled ''download'' ls = ''http://a/2''"
    using cases by (auto simp: ls_def lastLabelled_def low)
  have t: "lastLabelled ''tor download'' ls = ''http://a/3''"
    using cases by (auto simp: ls_def lastLabelled_def low)
  have one: "parseUploadResponse
           (w0 @ uploadLine ux s1 lx @ w1 @ uploadLine uy s2 ly @ w2 @ uploadLine uz s3 lz @ w3)
         = Inr \<lparr>Admin = ''http://a/1'', Download = ''http://a/2'', TorDownload = ''http://a/3''\<rparr>"
    using parseUploadResponse_lines[OF wf ws(4)] by (simp only: r a d t)
  have wf2: "list_all wellFormed [(w0, ''http://a/2'', s1, lD)]"
    using sep ws lt by (simp add: wellFormed_def isURLToken_a1)
  have two: "parseUploadResponse (w0 @ uploadLine ''http://a/2'' s1 lD @ w1)
         = Inr \<lparr>Admin = [], Download = ''http://a/2'', TorDownload = []\<rparr>"
    using parseUploadResponse_lines[OF wf2 ws(2)] by (simp add: lastLabelled_def low)
  have wf3: "list_all wellFormed [(w0, uo, s2, lo), (w1, ''http://a/2'', s1, lD)]"
    using sep ws lt other by (simp add: wellFormed_def isURLToken_a1)
  have three: "parseUploadResponse (w0 @ uploadLine uo s2 lo @ w1 @ uploadLine ''http://a/2'' s1 lD @ w2)
         = Inr \<lparr>Admin = [], Download = ''http://a/2'', TorDownload = []\<rparr>"
    using parseUploadResponse_lines[OF wf3 ws(3)] other by (simp add: lastLabelled_def low)
  from one two three show ?thesis by (intro conjI)
qed

theorem upload_three_lines_witness:
  "casingOf ''ADMIN'' ''admin'' \<and> casingOf ''Download'' ''download'' \<and>
   casingOf ''tor DOWNLOAD'' ''tor download'' \<and>
   mset [(''http://a/3'', ''tor DOWNLOAD''), (''http://a/1'', ''ADMIN''), (''http://a/2'', ''Download'')]
     = mset [(''http://a/1'', ''ADMIN''), (''http://a/2'', ''Download''), (''http://a/3'', ''tor DOWNLOAD'')] \<and>
   isBlank [CHR 0x0D, CHR 0x0A] \<and> isBlank [CHR 0x09] \<and> isBlank '' '' \<and> isBlank [] \<and>
   isLabelText ''QR code'' \<and> isURLToken ''http://a/9'' \<and>
   parseUploadResponse
     ([] @ uploadLine ''http://a/3'' '' '' ''tor DOWNLOAD'' @ [CHR 0x0D, CHR 0x0A] @
      uploadLine ''http://a/1'' [CHR 0x09] ''ADMIN'' @ [CHR 0x0D, CHR 0x0A] @
      uploadLine ''http://a/2'' '' '' ''Download'' @ [CHR 0x0D, CHR 0x0A])
     = Inr \<lparr>Admin = ''http://a/1'', Download = ''http://a/2'', TorDownload = ''http://a/3''\<rparr> \<and>
   parseUploadResponse ([] @ uploadLine ''http://a/2'' '' '' ''Download'' @ [CHR 0x0D, CHR 0x0A])
     = Inr \<lparr>Admin = [], Download = ''http://a/2'', TorDownload = []\<rparr> \<and>
   parseUploadResponse
     ([] @ uploadLine ''http://a/9'' [CHR 0x09] ''QR code'' @ [CHR 0x0D, CHR 0x0A] @
      uploadLine ''http://a/2'' '' '' ''Download'' @ [CHR 0x0D, CHR 0x0A])
     = Inr \<lparr>Admin = [], Download = ''http://a/2'', TorDownload = []\<rparr>"
proof -
  have c: "casingOf ''ADMIN'' ''admin''" "casingOf ''Download'' ''download''"
    "casingOf ''tor DOWNLOAD'' ''tor download''"
    by code_simp+
  have p: "mset [(''http://a/3'', ''tor DOWNLOAD''), (''http://a/1'', ''ADMIN''), (''http://a/2'', ''Download'')]
     = mset [(''http://a/1'', ''ADMIN''), (''http://a/2'', ''Download''), (''http://a/3'', ''tor DOWNLOAD'')]"
    by (simp add: add_mset_commute)
  have b: "isBlank [CHR 0x0D, CHR 0x0A]" "isBlank [CHR 0x09]" "isBlank '' ''" "isBlank []"
    by (simp_all add: isBlank_def isSpace_def)
  have n: "'' '' \<noteq> []" "[CHR 0x09] \<noteq> []"
    by simp_all
  have o: "isLabelText ''QR code''" "ToLower ''QR code'' \<noteq> ''admin''"
    "ToLower ''QR code'' \<noteq> ''download''" "ToLower ''QR code'' \<noteq> ''tor download''"
    "isURLToken ''http://a/9''"
    by code_simp+
  note t = upload_three_lines[OF c p n(1) b(3) n(2) b(2) n(1) b(3) b(4) b(1) b(1) b(1) o]
  from c p b o(1,5) t[THEN conjunct1] t[THEN conjunct2, THEN conjunct1]
    t[THEN conjunct2, THEN conjunct2]
  show ?thesis by (intro conjI)
qed

text \<open>
  Claim C5. \<open>parseUploadResponse\<close> returns a response on every body: it never panics (the
  two index expressions of its loop are in range for every match) and it has no error
  result. A body in which the pattern finds nothing, in particular any body without the
  character \<open>[\<close>, gives the all-empty response.
\<close>

theorem parseUploadResponse_total:
  "(\<exists>r. parseUploadResponse body = Inr r) \<and>
   (FindAllStringSubmatch uploadResponseRegex body = [] \<longrightarrow> parseUploadResponse body = Inr emptyUpload) \<and>
   (CHR ''['' \<notin> set body \<longrightarrow> parseUploadResponse body = Inr emptyUpload)"
proof (intro conjI impI)
  show "\<exists>r. parseUploadResponse body = Inr r"
    by (rule parseUploadResponse_Inr)
next
  assume "FindAllStringSubmatch uploadResponseRegex body = []"
  then show "parseUploadResponse body = Inr emptyUpload"
    by (simp add: parseUploadResponse_def)
next
  assume "CHR ''['' \<notin> set body"
  then show "parseUploadResponse body = Inr emptyUpload"
    by (simp add: parseUploadResponse_def FindAll_upload_no_bracket)
qed

theorem parseUploadResponse_total_witness:
  "CHR ''['' \<notin> set ''<html>502 Bad Gateway</html>'' \<and>
   (\<exists>r. parseUploadResponse ''<html>502 Bad Gateway</html>'' = Inr r) \<and>
   parseUploadResponse ''<html>502 Bad Gateway</html>'' = Inr emptyUpload"
proof -
  have h: "CHR ''['' \<notin> set ''<html>502 Bad Gateway</html>''" by simp
  note t = parseUploadResponse_total[of "''<html>502 Bad Gateway</html>''"]
  from h t show ?thesis by blast
qed

text \<open>
  Claim C6 as stated fails: the token must begin with \<open>http://\<close> or \<open>https://\<close>. The
  token \<open>ftp://a/1\<close> has no white space, and the line \<open>ftp://a/1 [Admin]\<close> assigns nothing.
\<close>

theorem upload_token_scheme_counterexample:
  "list_all notSpace ''ftp://a/1'' \<and>
   parseUploadResponse ''ftp://a/1 [Admin]'' = Inr \<lparr>Admin = [], Download = [], TorDownload = []\<rparr>"
  by code_simp

text \<open>
  Claim C6, amended. For every token \<open>t\<close> free of white space that begins with \<open>http://\<close>
  or \<open>https://\<close> followed by at least one more character (\<open>isURLToken\<close>), and every
  letter-casing \<open>L\<close> of one of the three labels, the body \<open>t [L]\<close> assigns \<open>t\<close> to the field
  of that label; nothing else about \<open>t\<close> is checked.
\<close>

theorem upload_line_assigns_http_token:
  assumes "isURLToken t"
  shows "(casingOf L ''admin'' \<longrightarrow>
            parseUploadResponse (t @ '' ['' @ L @ '']'') = Inr \<lparr>Admin = t, Download = [], TorDownload = []\<rparr>) \<and>
         (casingOf L ''download'' \<longrightarrow>
            parseUploadResponse (t @ '' ['' @ L @ '']'') = Inr \<lparr>Admin = [], Download = t, TorDownload = []\<rparr>) \<and>
         (casingOf L ''tor download'' \<longrightarrow>
            parseUploadResponse (t @ '' ['' @ L @ '']'') = Inr \<lparr>Admin = [], Download = [], TorDownload = t\<rparr>)"
proof -
  have b: "isBlank '' ''" "isBlank []" by (simp_all add: isBlank_def isSpace_def)
  have r: "renderLines [([], t, '' '', L)] @ [] = t @ '' ['' @ L @ '']''"
    by (simp add: uploadLine_def)
  have p: "isLabelText L \<Longrightarrow> parseUploadResponse (t @ '' ['' @ L @ '']'') =
     Inr \<lparr>Admin = lastLabelled ''admin'' [([], t, '' '', L)],
          Download = lastLabelled ''download'' [([], t, '' '', L)],
          TorDownload = lastLabelled ''tor download'' [([], t, '' '', L)]\<rparr>"
    using parseUploadResponse_lines[of "[([], t, '' '', L)]" "[]"] assms b
    by (simp only: r) (simp add: wellFormed_def)
  show ?thesis
  proof (intro conjI impI)
    assume c: "casingOf L ''admin''"
    then show "parseUploadResponse (t @ '' ['' @ L @ '']'') = Inr \<lparr>Admin = t, Download = [], TorDownload = []\<rparr>"
      using p[OF isLabelText_labels(1)[OF c]] by (simp add: lastLabelled_def ToLower_admin)
  next
    assume c: "casingOf L ''download''"
    then show "parseUploadResponse (t @ '' ['' @ L @ '']'') = Inr \<lparr>Admin = [], Download = t, TorDownload = []\<rparr>"
      using p[OF isLabelText_labels(2)[OF c]] by (simp add: lastLabelled_def ToLower_download)
  next
    assume c: "casingOf L ''tor download''"
    then show "parseUploadResponse (t @ '' ['' @ L @ '']'') = Inr \<lparr>Admin = [], Download = [], TorDownload = t\<rparr>"
      using p[OF isLabelText_labels(3)[OF c]] by (simp add: lastLabelled_def ToLower_tor_download)
  qed
qed

theorem upload_line_assigns_http_token_witness:
  "isURLToken ''https://[::1]:8080/%zz'' \<and> casingOf ''AdMiN'' ''admin'' \<and>
   parseUploadResponse (''https://[::1]:8080/%zz'' @ '' ['' @ ''AdMiN'' @ '']'')
     = Inr \<lparr>Admin = ''https://[::1]:8080/%zz'', Download = [], TorDownload = []\<rparr>"
proof -
  have h: "isURLToken ''https://[::1]:8080/%zz''"
    by (simp add: isURLToken_def notSpace_def isSpace_def)
  have c: "casingOf ''AdMiN'' ''admin''"
    by code_simp
  from upload_line_assigns_http_token[OF h, of "''AdMiN''"] c
  have "parseUploadResponse (''https://[::1]:8080/%zz'' @ '' ['' @ ''AdMiN'' @ '']'')
     = Inr \<lparr>Admin = ''https://[::1]:8080/%zz'', Download = [], TorDownload = []\<rparr>"
    by blast
  with h c show ?thesis by (intro conjI)
qed

text \<open>
  Claim C9. On every body, each field of the result is the URL of the last match, in the
  order of the text, whose lower-cased label is the field's label. So in a body of
  well-formed lines, a line whose label is one of the three and is not borne by any later
  line gives its URL to the field of that label, whatever lines with the same label come
  before it: the last occurrence wins.
\<close>

theorem upload_last_line_wins:
  assumes "list_all wellFormed (ls1 @ (w, u, sp, l) # ls2)" "isBlank wEnd"
    and "list_all (\<lambda>(w', u', sp', l'). ToLower l' \<noteq> ToLower l) ls2"
  shows "parseUploadResponse body =
           Inr \<lparr>Admin = lastMatch ''admin'' (FindAllStringSubmatch uploadResponseRegex body),
                Download = lastMatch ''download'' (FindAllStringSubmatch uploadResponseRegex body),
                TorDownload = lastMatch ''tor download'' (FindAllStringSubmatch uploadResponseRegex body)\<rparr> \<and>
         (\<exists>r. parseUploadResponse (renderLines (ls1 @ (w, u, sp, l) # ls2) @ wEnd) = Inr r \<and>
           (ToLower l = ''admin'' \<longrightarrow> Admin r = u) \<and>
           (ToLower l = ''download'' \<longrightarrow> Download r = u) \<and>
           (ToLower l = ''tor download'' \<longrightarrow> TorDownload r = u))"
  using parseUploadResponse_lines[OF assms(1,2)] lastLabelled_last[OF _ assms(3)]
    parseUploadResponse_lastMatch[of body]
  by simp

theorem upload_last_line_wins_witness:
  "list_all wellFormed
     ([([], ''http://a/1'', '' '', ''Admin'')] @ ([CHR 0x0A], ''http://a/2'', '' '', ''ADMIN'') #
      [([CHR 0x0A], ''http://a/3'', '' '', ''Download'')]) \<and>
   isBlank [CHR 0x0A] \<and>
   list_all (\<lambda>(w', u', sp', l'). ToLower l' \<noteq> ToLower ''ADMIN'')
     [([CHR 0x0A], ''http://a/3'', '' '', ''Download'')] \<and>
   ToLower ''ADMIN'' = ''admin'' \<and>
   (\<exists>r. parseUploadResponse
          (renderLines ([([], ''http://a/1'', '' '', ''Admin'')] @
             ([CHR 0x0A], ''http://a/2'', '' '', ''ADMIN'') #
             [([CHR 0x0A], ''http://a/3'', '' '', ''Download'')]) @ [CHR 0x0A]) = Inr r \<and>
        Admin r = ''http://a/2'')"
proof -
  have wf: "list_all wellFormed
     ([([], ''http://a/1'', '' '', ''Admin'')] @ ([CHR 0x0A], ''http://a/2'', '' '', ''ADMIN'') #
      [([CHR 0x0A], ''http://a/3'', '' '', ''Download'')])"
    by (simp add: wellFormed_def isBlank_def isSpace_def isURLToken_def notSpace_def
        isLabelText_def notRBracket_def)
  have b: "isBlank [CHR 0x0A]"
    by (simp add: isBlank_def isSpace_def)
  have n: "list_all (\<lambda>(w', u', sp', l'). ToLower l' \<noteq> ToLower ''ADMIN'')
     [([CHR 0x0A], ''http://a/3'', '' '', ''Download'')]"
    by code_simp
  have l: "ToLower ''ADMIN'' = ''admin''"
    by code_simp
  from upload_last_line_wins[OF wf b n, THEN conjunct2] l
  have "\<exists>r. parseUploadResponse
          (renderLines ([([], ''http://a/1'', '' '', ''Admin'')] @
             ([CHR 0x0A], ''http://a/2'', '' '', ''ADMIN'') #
             [([CHR 0x0A], ''http://a/3'', '' '', ''Download'')]) @ [CHR 0x0A]) = Inr r \<and>
        Admin r = ''http://a/2''"
    by blast
  with wf b n l show ?thesis by (intro conjI)
qed

section \<open>Properties of the hashsum parser\<close>

lemma numGroups_hashsum [simp]: "numGroups hashsumResponseRegex = 2"
  by (simp add: numGroups_def hashsumResponseRegex_def)

lemma FindStringSubmatch_hashsum_length:
  "FindStringSubmatch hashsumResponseRegex body = [] \<or>
   length (FindStringSubmatch hashsumResponseRegex body) = 3"
  by (auto simp: FindStringSubmatch_def split: option.splits dest: findLeftmost_length)

lemmas hashsum_eval =
  parseHashsumResponse_def FindStringSubmatch_def hashsumResponseRegex_def init_def consume_def
  submatches_def numGroups_def isAlnum_def isSpace_def notRBracket_def hashsumMatches_def
  index_def Let_def

lemma parseHashsumResponse_no_match:
  "findLeftmost hashsumResponseRegex body = None \<Longrightarrow>
   parseHashsumResponse body = Inr (emptyHashsum, Some (WrongResponse body))"
  by (simp add: parseHashsumResponse_def FindStringSubmatch_def hashsumMatches_def)

lemma findLeftmost_hashsum_needs:
  assumes "CHR ''('' \<notin> set body \<or> CHR '')'' \<notin> set body"
  shows "findLeftmost hashsumResponseRegex body = None"
proof -
  have "Lit CHR ''('' \<in> set hashsumResponseRegex" "Lit CHR '')'' \<in> set hashsumResponseRegex"
    by (simp_all add: hashsumResponseRegex_def)
  with assms show ?thesis
    using findLeftmost_needs_Lit[of _ hashsumResponseRegex body]
    by (cases "findLeftmost hashsumResponseRegex body") auto
qed

lemma parseHashsumResponse_Inr: "\<exists>r. parseHashsumResponse body = Inr r"
  using FindStringSubmatch_hashsum_length[of body]
  by (auto simp: parseHashsumResponse_def hashsumMatches_def index_def Let_def)

lemma parseHashsumResponse_not_Inl: "parseHashsumResponse body \<noteq> Inl p"
  using parseHashsumResponse_Inr[of body] by auto

text \<open>
  Claim C2. The body \<open>deadbeef (sha256)\<close> parses to algorithm \<open>sha256\<close> and hashsum
  \<open>deadbeef\<close>. On every body in which the pattern does not match (the submatches are fewer
  than three), in particular on every body that lacks \<open>(\<close> or \<open>)\<close>, the parser returns the
  empty response together with the error \<open>WrongResponse\<close>, whose message is
  \<open>wrong response: \<close> followed by the body.
\<close>

theorem hashsum_parse_or_wrong_response:
  "parseHashsumResponse ''deadbeef (sha256)''
     = Inr (\<lparr>Algorithm = ''sha256'', Hashsum = ''deadbeef''\<rparr>, None) \<and>
   (length (FindStringSubmatch hashsumResponseRegex body) < hashsumMatches \<longrightarrow>
      parseHashsumResponse body = Inr (emptyHashsum, Some (WrongResponse body)) \<and>
      Error (WrongResponse body) = ''wrong response: '' @ body) \<and>
   (CHR ''('' \<notin> set body \<or> CHR '')'' \<notin> set body \<longrightarrow>
      parseHashsumResponse body = Inr (emptyHashsum, Some (WrongResponse body)))"
proof (intro conjI impI)
  show "parseHashsumResponse ''deadbeef (sha256)''
     = Inr (\<lparr>Algorithm = ''sha256'', Hashsum = ''deadbeef''\<rparr>, None)"
    by (simp add: hashsum_eval)
next
  assume "length (FindStringSubmatch hashsumResponseRegex body) < hashsumMatches"
  then show "parseHashsumResponse body = Inr (emptyHashsum, Some (WrongResponse body))"
    by (simp add: parseHashsumResponse_def)
next
  show "Error (WrongResponse body) = ''wrong response: '' @ body"
    by simp
next
  assume "CHR ''('' \<notin> set body \<or> CHR '')'' \<notin> set body"
  then show "parseHashsumResponse body = Inr (emptyHashsum, Some (WrongResponse body))"
    by (intro parseHashsumResponse_no_match findLeftmost_hashsum_needs)
qed

theorem hashsum_parse_or_wrong_response_witness:
  "length (FindStringSubmatch hashsumResponseRegex ''deadbeef sha256'') < hashsumMatches \<and>
   CHR ''('' \<notin> set ''deadbeef sha256'' \<and>
   parseHashsumResponse ''deadbeef sha256'' = Inr (emptyHashsum, Some (WrongResponse ''deadbeef sha256'')) \<and>
   Error (WrongResponse ''deadbeef sha256'') = ''wrong response: '' @ ''deadbeef sha256''"
proof -
  have p: "CHR ''('' \<notin> set ''deadbeef sha256''"
    by simp
  then have "findLeftmost hashsumResponseRegex ''deadbeef sha256'' = None"
    by (intro findLeftmost_hashsum_needs disjI1)
  then have h: "length (FindStringSubmatch hashsumResponseRegex ''deadbeef sha256'') < hashsumMatches"
    by (simp add: FindStringSubmatch_def hashsumMatches_def)
  note t = hashsum_parse_or_wrong_response[of "''deadbeef sha256''",
      THEN conjunct2, THEN conjunct1, rule_format, OF h]
  from h p t[THEN conjunct1] t[THEN conjunct2] show ?thesis by (intro conjI)
qed

text \<open>
  Claim C10. The second group of the hashsum pattern excludes \<open>]\<close>, not \<open>)\<close>: on the
  body \<open>abc (de)f)\<close> the parser succeeds, and the algorithm it returns is \<open>de)f\<close>, the
  group reaching up to the last closing parenthesis.
\<close>

theorem hashsum_group_spans_parenthesis:
  "parseHashsumResponse ''abc (de)f)'' = Inr (\<lparr>Algorithm = ''de)f'', Hashsum = ''abc''\<rparr>, None)
   \<and> CHR '')'' \<in> set (Algorithm (fst (projr (parseHashsumResponse ''abc (de)f)''))))"
  by code_simp

section \<open>Properties of the upload URL\<close>

lemmas param_defs =
  filenameParam_def expireParam_def autodestroyParam_def randomizefnParam_def shorturlParam_def

lemma uploadQuery_filename:
  "uploadQuery q0 img ''filename'' =
     (if filename img \<noteq> ''filename'' then Some [filename img] else q0 ''filename'')"
  by (simp add: uploadQuery_def Values_Set_def param_defs)

lemma uploadQuery_expire:
  "uploadQuery q0 img ''expire'' =
     (if 0 < expire img then Some [formatUint (unat (expire img))] else q0 ''expire'')"
  by (simp add: uploadQuery_def Values_Set_def param_defs)

lemma uploadQuery_autodestroy:
  "uploadQuery q0 img ''autodestroy'' = (if autodestroy img then Some [''1''] else q0 ''autodestroy'')"
  by (simp add: uploadQuery_def Values_Set_def param_defs)

lemma uploadQuery_randomizefn:
  "uploadQuery q0 img ''randomizefn'' = (if randomizefn img then Some [''1''] else q0 ''randomizefn'')"
  by (simp add: uploadQuery_def Values_Set_def param_defs)

lemma uploadQuery_shorturl:
  "uploadQuery q0 img ''shorturl'' = (if shorturl img then Some [''1''] else q0 ''shorturl'')"
  by (simp add: uploadQuery_def Values_Set_def param_defs)

lemma uploadQuery_other:
  "k \<notin> directiveParams \<Longrightarrow> uploadQuery q0 img k = q0 k"
  by (simp add: uploadQuery_def Values_Set_def param_defs directiveParams_def)

lemma formatUint_not_zero: "0 < n \<Longrightarrow> formatUint n \<noteq> ''0''"
proof (cases "n < 10")
  case True
  assume "0 < n"
  then have "of_char (digit n) \<noteq> (of_char (CHR ''0'') :: nat)"
    using True by (simp add: digit_def)
  then have "digit n \<noteq> CHR ''0''" by auto
  with True show ?thesis by (subst formatUint.simps) simp
next
  case False
  have "formatUint (n div 10) \<noteq> []"
    by (subst formatUint.simps) simp
  with False show ?thesis by (subst formatUint.simps) simp
qed

lemma decimalValue_formatUint: "decimalValue (formatUint n) = n"
proof (induction n rule: formatUint.induct)
  case (1 n)
  show ?case
  proof (cases "n < 10")
    case True
    then show ?thesis by (subst formatUint.simps) (simp add: decimalValue_def digit_def)
  next
    case False
    with 1 have "decimalValue (formatUint (n div 10)) = n div 10" by simp
    moreover have "(of_char (digit (n mod 10)) :: nat) - 48 = n mod 10"
      by (simp add: digit_def)
    ultimately show ?thesis using False
      by (subst formatUint.simps) (simp add: decimalValue_def)
  qed
qed

lemma formatUint_5: "formatUint 5 = ''5''"
  by code_simp

text \<open>
  Claim C3 as stated fails: \<open>prepareUploadURL\<close> starts from the query of the endpoint
  (\<open>url.Query()\<close>) and only sets parameters, so a parameter that the endpoint itself
  carries is sent although its directive is at the default. With the endpoint
  \<open>https://oshi.at?expire=9\<close> and an image whose \<open>expire\<close> is zero, the query keeps
  \<open>expire=9\<close> and the URL is \<open>https://oshi.at?expire=9\<close>.
\<close>

theorem upload_query_default_counterexample:
  "expire plainImage = 0 \<and>
   uploadQuery [''expire'' \<mapsto> [''9'']] plainImage ''expire'' = Some [''9''] \<and>
   prepareUploadURL queryLib
       (NewClient (stubTransport 200 []) [WithEndpoint ''https://oshi.at?expire=9'']) plainImage
     = (''https://oshi.at?expire=9'', None)"
  by (simp add: plainImage_def NewImage_def uploadQuery_def Values_Set_def param_defs
      prepareUploadURL_def queryLib_def stubLib_def NewClient_def WithEndpoint_def addPair_def)

text \<open>
  Claim C3, amended. When the endpoint parses, \<open>prepareUploadURL\<close> encodes the query
  \<open>uploadQuery q0 img\<close>, where \<open>q0\<close> is the query the endpoint itself carries. In it
  \<open>filename\<close> is set, to the image's file name, only when that name differs from
  \<open>filename\<close>; \<open>expire\<close> is set, to the decimal digits of the value, only when the value is
  greater than zero (and then the digits are not \<open>0\<close>); \<open>autodestroy\<close>, \<open>randomizefn\<close> and
  \<open>shorturl\<close> are set, to \<open>1\<close>, only when the flag is true. A parameter whose directive is
  at its default is not set: it keeps what \<open>q0\<close> has for it, as does every other parameter.
  So for an endpoint without a query of its own the parameters of the result are exactly
  those of the directives that are not at their default.
\<close>

theorem upload_query_only_non_default:
  assumes "url_Parse lib (endpoint c) = Inr url" "url_ParseQuery lib (RawQuery url) = q0"
  shows "prepareUploadURL lib c img
           = (URL_String lib (url\<lparr>RawQuery := Values_Encode lib (uploadQuery q0 img)\<rparr>), None) \<and>
         uploadQuery q0 img ''filename''
           = (if filename img \<noteq> ''filename'' then Some [filename img] else q0 ''filename'') \<and>
         uploadQuery q0 img ''expire''
           = (if 0 < expire img then Some [formatUint (unat (expire img))] else q0 ''expire'') \<and>
         uploadQuery q0 img ''autodestroy''
           = (if autodestroy img then Some [''1''] else q0 ''autodestroy'') \<and>
         uploadQuery q0 img ''randomizefn''
           = (if randomizefn img then Some [''1''] else q0 ''randomizefn'') \<and>
         uploadQuery q0 img ''shorturl''
           = (if shorturl img then Some [''1''] else q0 ''shorturl'') \<and>
         (k \<notin> directiveParams \<longrightarrow> uploadQuery q0 img k = q0 k) \<and>
         decimalValue (formatUint (unat (expire img))) = unat (expire img) \<and>
         (0 < expire img \<longrightarrow> formatUint (unat (expire img)) \<noteq> ''0'') \<and>
         (q0 = Map.empty \<longrightarrow>
            dom (uploadQuery q0 img)
              = (if filename img \<noteq> ''filename'' then {''filename''} else {}) \<union>
                (if 0 < expire img then {''expire''} else {}) \<union>
                (if autodestroy img then {''autodestroy''} else {}) \<union>
                (if randomizefn img then {''randomizefn''} else {}) \<union>
                (if shorturl img then {''shorturl''} else {}))"
proof -
  have p: "prepareUploadURL lib c img
           = (URL_String lib (url\<lparr>RawQuery := Values_Encode lib (uploadQuery q0 img)\<rparr>), None)"
    using assms by (simp add: prepareUploadURL_def)
  have d: "dom (uploadQuery Map.empty img)
              = (if filename img \<noteq> ''filename'' then {''filename''} else {}) \<union>
                (if 0 < expire img then {''expire''} else {}) \<union>
                (if autodestroy img then {''autodestroy''} else {}) \<union>
                (if randomizefn img then {''randomizefn''} else {}) \<union>
                (if shorturl img then {''shorturl''} else {})"
    by (simp add: uploadQuery_def Values_Set_def param_defs Let_def)
  have z: "0 < expire img \<longrightarrow> formatUint (unat (expire img)) \<noteq> ''0''"
    by (simp add: formatUint_not_zero unat_gt_0)
  show ?thesis
    using p d z
    by (simp only: uploadQuery_filename uploadQuery_expire uploadQuery_autodestroy
        uploadQuery_randomizefn uploadQuery_shorturl decimalValue_formatUint)
       (simp add: uploadQuery_other)
qed

theorem upload_query_only_non_default_witness:
  "url_Parse stubLib (endpoint (NewClient (stubTransport 200 []) []))
     = Inr \<lparr>Scheme = [], Opaque = ''https://oshi.at'', User = None, Host = [], Path = [],
            RawPath = [], OmitHost = False, ForceQuery = False, RawQuery = [],
            Fragment = [], RawFragment = []\<rparr> \<and>
   url_ParseQuery stubLib [] = Map.empty \<and>
   prepareUploadURL stubLib (NewClient (stubTransport 200 []) []) testImage
     = (''https://oshi.at?autodestroy=1&expire=5&filename=name_test'', None) \<and>
   uploadQuery Map.empty testImage ''filename'' = Some [''name_test''] \<and>
   uploadQuery Map.empty testImage ''expire'' = Some [''5''] \<and>
   uploadQuery Map.empty testImage ''autodestroy'' = Some [''1''] \<and>
   uploadQuery Map.empty testImage ''randomizefn'' = None \<and>
   uploadQuery Map.empty testImage ''shorturl'' = None \<and>
   ''token'' \<notin> directiveParams \<and> uploadQuery Map.empty testImage ''token'' = None \<and>
   dom (uploadQuery Map.empty testImage) = {''filename'', ''expire'', ''autodestroy''}"
proof -
  define url0 where "url0 = \<lparr>Scheme = [], Opaque = ''https://oshi.at'', User = None, Host = [], Path = [],
            RawPath = [], OmitHost = False, ForceQuery = False, RawQuery = [],
            Fragment = [], RawFragment = []\<rparr>"
  have h1: "url_Parse stubLib (endpoint (NewClient (stubTransport 200 []) [])) = Inr url0"
    by (simp add: stubLib_def NewClient_def defaultEndpoint_def url0_def)
  have h2: "url_ParseQuery stubLib (RawQuery url0) = Map.empty"
    by (simp add: stubLib_def)
  have k: "''token'' \<notin> directiveParams"
    by (simp add: directiveParams_def)
  have u: "unat (expire testImage) = 5" "0 < expire testImage" "filename testImage = ''name_test''"
    "autodestroy testImage" "\<not> randomizefn testImage" "\<not> shorturl testImage"
    by (simp_all add: testImage_def NewImage_def)
  note f = formatUint_5
  have e: "URL_String stubLib (url0\<lparr>RawQuery := Values_Encode stubLib (uploadQuery Map.empty testImage)\<rparr>)
         = ''https://oshi.at?autodestroy=1&expire=5&filename=name_test''"
    by (simp add: stubLib_def url0_def uploadQuery_def Values_Set_def param_defs u f)
  note t = upload_query_only_non_default[OF h1 h2, of testImage "''token''"]
  from t h1 h2 k e show ?thesis
    by (simp add: u f url0_def insert_commute)
qed

section \<open>Properties of the operations\<close>

text \<open>
  Claim C4. In each of the four operations, once the request is built and the transport
  has returned a response whose body could be read, a status other than 200 gives the error
  \<open>ServiceError\<close> with that status and that body, and the result next to it is the empty
  one: it is the same for every body, so it owes nothing to a parser.
\<close>

theorem non_200_is_service_error:
  assumes "StatusCode resp \<noteq> 200" "Body resp = Inr body" "httpClient c req = Inr resp"
  shows
    "(url_JoinPath lib (endpoint c) [onion] = Inr u \<and>
      http_NewRequestWithContext lib ctx MethodGet u None = Inr req \<longrightarrow>
        GetTorEndpoint lib ctx c = (([], Some (ServiceError (StatusCode resp) body)), c)) \<and>
     (url_JoinPath lib (endpoint c) [hashsum, f] = Inr u \<and>
      http_NewRequestWithContext lib ctx MethodGet u None = Inr req \<longrightarrow>
        GetHashsum lib ctx c f = Inr ((emptyHashsum, Some (ServiceError (StatusCode resp) body)), c)) \<and>
     (http_NewRequestWithContext lib ctx MethodDelete adminURL None = Inr req \<longrightarrow>
        Delete lib ctx c adminURL = (Some (ServiceError (StatusCode resp) body), c)) \<and>
     (prepareUploadURL lib c img = (u, None) \<and>
      http_NewRequestWithContext lib ctx MethodPut u (Some (fileBytes img)) = Inr req \<longrightarrow>
        Upload lib ctx c img = Inr ((emptyUpload, Some (ServiceError (StatusCode resp) body)), c))"
  using assms
  by (simp add: GetTorEndpoint_def GetHashsum_def Delete_def Upload_def StatusOK_def)

theorem non_200_is_service_error_witness:
  "StatusCode \<lparr>StatusCode = 500, Body = Inr ''deadbeef (sha256) http://a/1 [Admin]''\<rparr> \<noteq> 200 \<and>
   GetTorEndpoint stubLib () (NewClient (stubTransport 500 ''deadbeef (sha256) http://a/1 [Admin]'') [])
     = (([], Some (ServiceError 500 ''deadbeef (sha256) http://a/1 [Admin]'')),
        NewClient (stubTransport 500 ''deadbeef (sha256) http://a/1 [Admin]'') []) \<and>
   GetHashsum stubLib () (NewClient (stubTransport 500 ''deadbeef (sha256) http://a/1 [Admin]'') []) ''abc''
     = Inr ((emptyHashsum, Some (ServiceError 500 ''deadbeef (sha256) http://a/1 [Admin]'')),
            NewClient (stubTransport 500 ''deadbeef (sha256) http://a/1 [Admin]'') []) \<and>
   Delete stubLib () (NewClient (stubTransport 500 ''deadbeef (sha256) http://a/1 [Admin]'') []) ''http://a/1''
     = (Some (ServiceError 500 ''deadbeef (sha256) http://a/1 [Admin]''),
        NewClient (stubTransport 500 ''deadbeef (sha256) http://a/1 [Admin]'') []) \<and>
   Upload stubLib () (NewClient (stubTransport 500 ''deadbeef (sha256) http://a/1 [Admin]'') []) testImage
     = Inr ((emptyUpload, Some (ServiceError 500 ''deadbeef (sha256) http://a/1 [Admin]'')),
            NewClient (stubTransport 500 ''deadbeef (sha256) http://a/1 [Admin]'') [])"
proof -
  define body0 where "body0 = ''deadbeef (sha256) http://a/1 [Admin]''"
  define resp0 where "resp0 = \<lparr>StatusCode = 500, Body = Inr body0\<rparr>"
  define c0 where "c0 = NewClient (stubTransport 500 body0) []"
  have s: "StatusCode resp0 \<noteq> 200" "Body resp0 = Inr body0"
    by (simp_all add: resp0_def)
  have d: "httpClient c0 req = Inr resp0" for req
    by (simp add: c0_def NewClient_def stubTransport_def resp0_def)
  have e: "endpoint c0 = ''https://oshi.at''"
    by (simp add: c0_def NewClient_def defaultEndpoint_def)
  have p: "prepareUploadURL stubLib c0 testImage
         = (''https://oshi.at?autodestroy=1&expire=5&filename=name_test'', None)"
    by (simp add: prepareUploadURL_def e stubLib_def uploadQuery_def Values_Set_def param_defs
        testImage_def NewImage_def formatUint_5)
  have "GetTorEndpoint stubLib () c0 = (([], Some (ServiceError (StatusCode resp0) body0)), c0)"
    using non_200_is_service_error[OF s d[of "(''GET'', ''https://oshi.at/onion'', None)"],
        of stubLib "''https://oshi.at/onion''" "()"]
    by (simp add: stubLib_def e onion_def MethodGet_def)
  moreover
  have "GetHashsum stubLib () c0 ''abc'' = Inr ((emptyHashsum, Some (ServiceError (StatusCode resp0) body0)), c0)"
    using non_200_is_service_error[OF s d[of "(''GET'', ''https://oshi.at/hashsum/abc'', None)"],
        of stubLib "''https://oshi.at/hashsum/abc''" "()" "''abc''"]
    by (simp add: stubLib_def e hashsum_def MethodGet_def)
  moreover
  have "Delete stubLib () c0 ''http://a/1'' = (Some (ServiceError (StatusCode resp0) body0), c0)"
    using non_200_is_service_error[OF s d[of "(''DELETE'', ''http://a/1'', None)"],
        of stubLib _ "()" _ "''http://a/1''"]
    by (simp add: stubLib_def MethodDelete_def)
  moreover
  have "Upload stubLib () c0 testImage = Inr ((emptyUpload, Some (ServiceError (StatusCode resp0) body0)), c0)"
    using non_200_is_service_error[OF s
        d[of "(''PUT'', ''https://oshi.at?autodestroy=1&expire=5&filename=name_test'', Some ''data'')"],
        of stubLib "''https://oshi.at?autodestroy=1&expire=5&filename=name_test''" "()" _ _ testImage] p
    by (simp add: stubLib_def MethodPut_def testImage_def NewImage_def)
  ultimately show ?thesis
    using s by (simp add: resp0_def c0_def body0_def)
qed

text \<open>
  Claim C7. On a response with status 200 whose body could be read, \<open>GetTorEndpoint\<close>
  returns the body as it is, with no error.
\<close>

theorem tor_endpoint_verbatim:
  assumes "url_JoinPath lib (endpoint c) [onion] = Inr u"
    and "http_NewRequestWithContext lib ctx MethodGet u None = Inr req"
    and "httpClient c req = Inr resp"
    and "StatusCode resp = 200" "Body resp = Inr body"
  shows "GetTorEndpoint lib ctx c = ((body, None), c)"
  using assms by (simp add: GetTorEndpoint_def StatusOK_def)

theorem tor_endpoint_verbatim_witness:
  "url_JoinPath stubLib (endpoint (NewClient (stubTransport 200 ''  oshiatwowvdbshka.onion  '') [])) [onion]
     = Inr ''https://oshi.at/onion'' \<and>
   http_NewRequestWithContext stubLib () MethodGet ''https://oshi.at/onion'' None
     = Inr (''GET'', ''https://oshi.at/onion'', None) \<and>
   GetTorEndpoint stubLib () (NewClient (stubTransport 200 ''  oshiatwowvdbshka.onion  '') [])
     = ((''  oshiatwowvdbshka.onion  '', None), NewClient (stubTransport 200 ''  oshiatwowvdbshka.onion  '') [])"
proof -
  define c0 where "c0 = NewClient (stubTransport 200 ''  oshiatwowvdbshka.onion  '') []"
  define resp0 where "resp0 = \<lparr>StatusCode = 200, Body = Inr ''  oshiatwowvdbshka.onion  ''\<rparr>"
  have j: "url_JoinPath stubLib (endpoint c0) [onion] = Inr ''https://oshi.at/onion''"
    by (simp add: c0_def NewClient_def defaultEndpoint_def stubLib_def onion_def)
  have n: "http_NewRequestWithContext stubLib () MethodGet ''https://oshi.at/onion'' None
     = Inr (''GET'', ''https://oshi.at/onion'', None)"
    by (simp add: stubLib_def MethodGet_def)
  have d: "httpClient c0 (''GET'', ''https://oshi.at/onion'', None) = Inr resp0"
    by (simp add: c0_def NewClient_def stubTransport_def resp0_def)
  have s: "StatusCode resp0 = 200" "Body resp0 = Inr ''  oshiatwowvdbshka.onion  ''"
    by (simp_all add: resp0_def)
  from tor_endpoint_verbatim[OF j n d s] j n show ?thesis
    unfolding c0_def by (intro conjI)
qed

lemma NewClient_WithEndpoint:
  "NewClient h (map WithEndpoint es) = \<lparr>endpoint = last (defaultEndpoint # es), httpClient = h\<rparr>"
proof -
  have "fold (\<lambda>opt client. opt client) (map WithEndpoint es) \<lparr>endpoint = e0, httpClient = h\<rparr>
      = \<lparr>endpoint = last (e0 # es), httpClient = h\<rparr>" for e0
    by (induction es arbitrary: e0) (simp_all add: WithEndpoint_def)
  then show ?thesis by (simp add: NewClient_def)
qed

text \<open>
  Claim C8. \<open>NewClient\<close> without options gives the default endpoint and the given
  transport; options \<open>WithEndpoint\<close> are applied in order, so the last one decides the
  endpoint, and leave the transport alone. Every operation returns normally and leaves the
  client as it found it.
\<close>

theorem client_configuration_immutable:
  "NewClient h [] = \<lparr>endpoint = ''https://oshi.at'', httpClient = h\<rparr> \<and>
   NewClient h (map WithEndpoint es) = \<lparr>endpoint = last (''https://oshi.at'' # es), httpClient = h\<rparr> \<and>
   snd (GetTorEndpoint lib ctx c) = c \<and>
   (\<exists>r. GetHashsum lib ctx c f = Inr (r, c)) \<and>
   snd (Delete lib ctx c adminURL) = c \<and>
   (\<exists>r. Upload lib ctx c img = Inr (r, c))"
proof (intro conjI)
  show "NewClient h [] = \<lparr>endpoint = ''https://oshi.at'', httpClient = h\<rparr>"
    by (simp add: NewClient_def defaultEndpoint_def)
  show "NewClient h (map WithEndpoint es) = \<lparr>endpoint = last (''https://oshi.at'' # es), httpClient = h\<rparr>"
    using NewClient_WithEndpoint[of h es] by (simp add: defaultEndpoint_def)
  show "snd (GetTorEndpoint lib ctx c) = c"
    by (simp add: GetTorEndpoint_def split: sum.splits)
  show "snd (Delete lib ctx c adminURL) = c"
    by (simp add: Delete_def split: sum.splits)
  show "\<exists>r. GetHashsum lib ctx c f = Inr (r, c)"
    by (auto simp: GetHashsum_def parseHashsumResponse_not_Inl split: sum.splits)
  show "\<exists>r. Upload lib ctx c img = Inr (r, c)"
    by (auto simp: Upload_def parseUploadResponse_not_Inl split: sum.splits prod.splits option.splits)
qed

end
